theory Spec2Isabelle
  imports Main "HOL-Library.Word" "HOL-Library.Sublist"
begin

section \<open>The firmware-image loader of the system_test_hw_0 BSP\<close>

text \<open>
  The source is the BSP file of the system_test_hw_0 platform (\<^verbatim>\<open>system_test_hw_0_bsp.c\<close>).
  It is written for a 32-bit microcontroller: every status, size and length is a
  \<^verbatim>\<open>uint32_t\<close>, and addresses are 32 bits wide.  Pointers are therefore modelled as
  32-bit words, with \<open>0\<close> for \<^verbatim>\<open>NULL\<close>; pointer comparison is unsigned comparison and the
  pointer difference \<^verbatim>\<open>fw_img_end - fw_img\<close>, compared with and assigned to the
  \<^verbatim>\<open>uint32_t write_size\<close>, is word subtraction.
\<close>

type_synonym u8 = "8 word"
type_synonym u32 = "32 word"
type_synonym ptr = "32 word"

definition BSP_STATUS_OK :: u32 where
  "BSP_STATUS_OK = 0"

definition BSP_STATUS_FAIL :: u32 where
  "BSP_STATUS_FAIL = 1"

subsection \<open>Data model\<close>

text \<open>
  The type \<^verbatim>\<open>fw_img_boot_state_t\<close> is declared in a header that is not part of the
  sources at hand.  The records below have the fields that \<^verbatim>\<open>bsp_dut_boot\<close> names; the
  parser's own cursor fields are carried by \<open>parser_private\<close>, whose all-zero value is
  \<open>0\<close>.
\<close>

record fw_img_preheader_t =
  img_format_rev :: u32

record fw_img_header_t =
  sym_table_size :: u32
  alg_id_list_size :: u32
  max_block_size :: u32

record fw_img_info_t =
  preheader :: fw_img_preheader_t
  header :: fw_img_header_t
  sym_table :: ptr
  alg_id_list :: ptr

record fw_img_block_t =
  block_addr :: u32
  block_size :: u32

record 'p fw_img_boot_state_t =
  fw_info :: fw_img_info_t
  block :: fw_img_block_t
  block_data :: ptr
  block_data_size :: u32
  fw_img_blocks :: ptr
  fw_img_blocks_size :: u32
  parser_private :: 'p

text \<open>The value \<^verbatim>\<open>memset(&boot_state, 0, sizeof(fw_img_boot_state_t))\<close> leaves behind.\<close>

definition zeroed_boot_state :: "('p::zero) fw_img_boot_state_t" where
  "zeroed_boot_state =
     \<lparr> fw_info = \<lparr> preheader = \<lparr> img_format_rev = 0 \<rparr>,
                   header = \<lparr> sym_table_size = 0, alg_id_list_size = 0, max_block_size = 0 \<rparr>,
                   sym_table = 0, alg_id_list = 0 \<rparr>,
       block = \<lparr> block_addr = 0, block_size = 0 \<rparr>,
       block_data = 0, block_data_size = 0,
       fw_img_blocks = 0, fw_img_blocks_size = 0,
       parser_private = 0 \<rparr>"

text \<open>
  The haptic configurations.  Their type is declared outside the sources at hand; the
  widths of its integer fields are not known here, and the values are small constants, so
  the fields are naturals.
\<close>

record cs40l25_gpio_trigger_config_t =
  enable :: bool
  button_press_index :: nat
  button_release_index :: nat

record cs40l25_haptic_config_t =
  cp_gain_control :: nat
  gpio_enable :: bool
  gpio_gain_control :: nat
  gpio_trigger_config :: "cs40l25_gpio_trigger_config_t list"

definition cs40l25_haptic_configs :: "cs40l25_haptic_config_t list" where
  "cs40l25_haptic_configs =
     [ \<lparr> cp_gain_control = 0, gpio_enable = False, gpio_gain_control = 0,
         gpio_trigger_config =
           [ \<lparr> enable = False, button_press_index = 3, button_release_index = 4 \<rparr>,
             \<lparr> enable = False, button_press_index = 0, button_release_index = 0 \<rparr>,
             \<lparr> enable = False, button_press_index = 0, button_release_index = 0 \<rparr>,
             \<lparr> enable = False, button_press_index = 0, button_release_index = 0 \<rparr> ] \<rparr>,
       \<lparr> cp_gain_control = 0, gpio_enable = True, gpio_gain_control = 0,
         gpio_trigger_config =
           [ \<lparr> enable = True, button_press_index = 3, button_release_index = 4 \<rparr>,
             \<lparr> enable = True, button_press_index = 0, button_release_index = 0 \<rparr>,
             \<lparr> enable = True, button_press_index = 0, button_release_index = 0 \<rparr>,
             \<lparr> enable = True, button_press_index = 0, button_release_index = 0 \<rparr> ] \<rparr> ]"

text \<open>
  Every call that leaves the file is recorded, in order, in a log kept beside the
  program state.  The log is not read by the program; the ordering properties below are
  stated on it.  A parser event keeps the boot state handed to the parser, the status
  returned and the boot state the parser left.
\<close>

datatype 'p event =
    Ev_boot "fw_img_info_t option" u32
  | Ev_free ptr
  | Ev_memset
  | Ev_read_header "'p fw_img_boot_state_t" u32 "'p fw_img_boot_state_t"
  | Ev_malloc u32 ptr
  | Ev_process "'p fw_img_boot_state_t" u32 "'p fw_img_boot_state_t"
  | Ev_write_block u32 ptr u32 u32

text \<open>
  The file-level variables \<^verbatim>\<open>boot_state\<close> and \<^verbatim>\<open>current_halo_heartbeat\<close>, the state of
  everything outside the file (driver, device, heap, parser input) as \<open>world\<close>, and the
  call log.
\<close>

record ('p, 'w) sys =
  boot_state :: "'p fw_img_boot_state_t"
  current_halo_heartbeat :: u32
  world :: 'w
  calls :: "'p event list"

text \<open>
  The collaborators and constants that the file takes from headers and modules outside
  the sources at hand: the status codes, the size of a symbol-table entry, the two
  firmware images (address and \<^verbatim>\<open>FW_IMG_SIZE\<close>), the driver calls, the allocator and the
  container parser.  Each collaborator is a function of the outside world; the parser
  also transforms the boot state it is given a pointer to.
\<close>

record ('p, 'w) env =
  CS40L25_STATUS_OK :: u32
  CS40L25_STATUS_FAIL :: u32
  FW_IMG_STATUS_FAIL :: u32
  FW_IMG_STATUS_NODATA :: u32
  FW_IMG_STATUS_DATA_READY :: u32
  sizeof_sym_table_t :: u32
  cs40l25_fw_img :: ptr
  cs40l25_fw_img_size :: u32
  cs40l25_cal_fw_img :: ptr
  cs40l25_cal_fw_img_size :: u32
  cs40l25_boot :: "fw_img_info_t option \<Rightarrow> 'w \<Rightarrow> u32 \<times> 'w"
  cs40l25_write_block :: "u32 \<Rightarrow> ptr \<Rightarrow> u32 \<Rightarrow> 'w \<Rightarrow> u32 \<times> 'w"
  bsp_malloc :: "u32 \<Rightarrow> 'w \<Rightarrow> ptr \<times> 'w"
  bsp_free :: "ptr \<Rightarrow> 'w \<Rightarrow> 'w"
  fw_img_read_header :: "'p fw_img_boot_state_t \<Rightarrow> 'w \<Rightarrow> (u32 \<times> 'p fw_img_boot_state_t) \<times> 'w"
  fw_img_process :: "'p fw_img_boot_state_t \<Rightarrow> 'w \<Rightarrow> (u32 \<times> 'p fw_img_boot_state_t) \<times> 'w"
  cs40l25_update_haptic_config :: "cs40l25_haptic_config_t \<Rightarrow> 'w \<Rightarrow> u32 \<times> 'w"

subsection \<open>Calls out of the file\<close>

definition log_call :: "'p event \<Rightarrow> ('p, 'w) sys \<Rightarrow> ('p, 'w) sys" where
  "log_call e s = s\<lparr>calls := calls s @ [e]\<rparr>"

definition call_cs40l25_boot ::
  "('p, 'w) env \<Rightarrow> fw_img_info_t option \<Rightarrow> ('p, 'w) sys \<Rightarrow> u32 \<times> ('p, 'w) sys" where
  "call_cs40l25_boot E arg s =
     (case cs40l25_boot E arg (world s) of
        (ret, w) \<Rightarrow> (ret, log_call (Ev_boot arg ret) (s\<lparr>world := w\<rparr>)))"

definition call_cs40l25_write_block ::
  "('p, 'w) env \<Rightarrow> u32 \<Rightarrow> ptr \<Rightarrow> u32 \<Rightarrow> ('p, 'w) sys \<Rightarrow> u32 \<times> ('p, 'w) sys" where
  "call_cs40l25_write_block E addr data len s =
     (case cs40l25_write_block E addr data len (world s) of
        (ret, w) \<Rightarrow> (ret, log_call (Ev_write_block addr data len ret) (s\<lparr>world := w\<rparr>)))"

definition call_bsp_malloc ::
  "('p, 'w) env \<Rightarrow> u32 \<Rightarrow> ('p, 'w) sys \<Rightarrow> ptr \<times> ('p, 'w) sys" where
  "call_bsp_malloc E len s =
     (case bsp_malloc E len (world s) of
        (p, w) \<Rightarrow> (p, log_call (Ev_malloc len p) (s\<lparr>world := w\<rparr>)))"

definition call_bsp_free :: "('p, 'w) env \<Rightarrow> ptr \<Rightarrow> ('p, 'w) sys \<Rightarrow> ('p, 'w) sys" where
  "call_bsp_free E p s = log_call (Ev_free p) (s\<lparr>world := bsp_free E p (world s)\<rparr>)"

definition call_fw_img_read_header ::
  "('p, 'w) env \<Rightarrow> ('p, 'w) sys \<Rightarrow> u32 \<times> ('p, 'w) sys" where
  "call_fw_img_read_header E s =
     (case fw_img_read_header E (boot_state s) (world s) of
        ((ret, bs), w) \<Rightarrow>
          (ret, log_call (Ev_read_header (boot_state s) ret bs) (s\<lparr>boot_state := bs, world := w\<rparr>)))"

definition call_fw_img_process ::
  "('p, 'w) env \<Rightarrow> ('p, 'w) sys \<Rightarrow> u32 \<times> ('p, 'w) sys" where
  "call_fw_img_process E s =
     (case fw_img_process E (boot_state s) (world s) of
        ((ret, bs), w) \<Rightarrow>
          (ret, log_call (Ev_process (boot_state s) ret bs) (s\<lparr>boot_state := bs, world := w\<rparr>)))"

definition memset_boot_state :: "('p::zero, 'w) sys \<Rightarrow> ('p, 'w) sys" where
  "memset_boot_state s = log_call Ev_memset (s\<lparr>boot_state := zeroed_boot_state\<rparr>)"

subsection \<open>Assignments to fields of the boot state\<close>

definition set_sym_table :: "ptr \<Rightarrow> ('p, 'w) sys \<Rightarrow> ('p, 'w) sys" where
  "set_sym_table p s =
     s\<lparr>boot_state := (boot_state s)\<lparr>fw_info := (fw_info (boot_state s))\<lparr>sym_table := p\<rparr>\<rparr>\<rparr>"

definition set_alg_id_list :: "ptr \<Rightarrow> ('p, 'w) sys \<Rightarrow> ('p, 'w) sys" where
  "set_alg_id_list p s =
     s\<lparr>boot_state := (boot_state s)\<lparr>fw_info := (fw_info (boot_state s))\<lparr>alg_id_list := p\<rparr>\<rparr>\<rparr>"

definition set_block_data_size :: "u32 \<Rightarrow> ('p, 'w) sys \<Rightarrow> ('p, 'w) sys" where
  "set_block_data_size n s = s\<lparr>boot_state := (boot_state s)\<lparr>block_data_size := n\<rparr>\<rparr>"

definition set_block_data :: "ptr \<Rightarrow> ('p, 'w) sys \<Rightarrow> ('p, 'w) sys" where
  "set_block_data p s = s\<lparr>boot_state := (boot_state s)\<lparr>block_data := p\<rparr>\<rparr>"

definition set_fw_img_blocks :: "ptr \<Rightarrow> u32 \<Rightarrow> ('p, 'w) sys \<Rightarrow> ('p, 'w) sys" where
  "set_fw_img_blocks p n s =
     s\<lparr>boot_state := (boot_state s)\<lparr>fw_img_blocks := p, fw_img_blocks_size := n\<rparr>\<rparr>"

subsection \<open>\<^verbatim>\<open>bsp_dut_boot\<close>\<close>

text \<open>
  One pass through the body of \<^verbatim>\<open>while (fw_img < fw_img_end)\<close>.  \<open>Inl\<close> is a
  \<^verbatim>\<open>return\<close> from within the loop, with the status returned; \<open>Inr\<close> is the end of the
  body (or the \<^verbatim>\<open>continue\<close>), with the values of the locals \<^verbatim>\<open>fw_img\<close> and
  \<^verbatim>\<open>write_size\<close> for the next test of the loop condition.
\<close>

definition boot_loop_body ::
  "('p, 'w) env \<Rightarrow> ptr \<Rightarrow> ptr \<Rightarrow> u32 \<Rightarrow> ('p, 'w) sys \<Rightarrow>
     (u32 \<times> ('p, 'w) sys) + (ptr \<times> u32 \<times> ('p, 'w) sys)" where
  "boot_loop_body E fw_img_end fw_img write_size s =
     (case call_fw_img_process E s of (ret, s) \<Rightarrow>
        if ret = FW_IMG_STATUS_DATA_READY E then
          (case call_cs40l25_write_block E (block_addr (block (boot_state s)))
                  (block_data (boot_state s)) (block_size (block (boot_state s))) s of
             (ret, s) \<Rightarrow>
               if ret = CS40L25_STATUS_FAIL E then Inl (BSP_STATUS_FAIL, s)
               else Inr (fw_img, write_size, s))
        else if ret = FW_IMG_STATUS_FAIL E then Inl (BSP_STATUS_FAIL, s)
        else
          (let fw_img = fw_img + write_size in
           if ret = FW_IMG_STATUS_NODATA E then
             (let write_size =
                    (if fw_img_end - fw_img < write_size then fw_img_end - fw_img
                     else write_size)
              in Inr (fw_img, write_size, set_fw_img_blocks fw_img write_size s))
           else Inr (fw_img, write_size, s)))"

text \<open>
  The loop together with the commit that follows it.  The loop need not end (a parser that
  reports a block for ever keeps it running), so it takes fuel: one unit for each test of
  the loop condition.  The result is the status returned, or \<open>None\<close> when the fuel ran out
  before the function returned, paired with the state reached.
\<close>

fun boot_loop ::
  "nat \<Rightarrow> ('p, 'w) env \<Rightarrow> ptr \<Rightarrow> ptr \<Rightarrow> u32 \<Rightarrow> ('p, 'w) sys \<Rightarrow> u32 option \<times> ('p, 'w) sys" where
  "boot_loop 0 E fw_img_end fw_img write_size s = (None, s)"
| "boot_loop (Suc fuel) E fw_img_end fw_img write_size s =
     (if fw_img < fw_img_end then
        (case boot_loop_body E fw_img_end fw_img write_size s of
           Inl (ret, s) \<Rightarrow> (Some ret, s)
         | Inr (fw_img, write_size, s) \<Rightarrow> boot_loop fuel E fw_img_end fw_img write_size s)
      else
        (case call_cs40l25_boot E (Some (fw_info (boot_state s))) s of
           (ret, s) \<Rightarrow> (Some ret, s\<lparr>current_halo_heartbeat := 0\<rparr>)))"

text \<open>
  The locals and the state at the moment the loop condition is tested for the
  \<open>(k + 1)\<close>-th time, when the loop gets that far.
\<close>

fun boot_loop_head ::
  "nat \<Rightarrow> ('p, 'w) env \<Rightarrow> ptr \<Rightarrow> ptr \<Rightarrow> u32 \<Rightarrow> ('p, 'w) sys \<Rightarrow> (ptr \<times> u32 \<times> ('p, 'w) sys) option" where
  "boot_loop_head 0 E fw_img_end fw_img write_size s = Some (fw_img, write_size, s)"
| "boot_loop_head (Suc k) E fw_img_end fw_img write_size s =
     (if fw_img < fw_img_end then
        (case boot_loop_body E fw_img_end fw_img write_size s of
           Inl _ \<Rightarrow> None
         | Inr (fw_img, write_size, s) \<Rightarrow> boot_loop_head k E fw_img_end fw_img write_size s)
      else None)"

text \<open>The three conditional calls of \<^verbatim>\<open>bsp_free\<close> under "Free anything malloc'ed in previous boots".\<close>

definition free_previous_boot :: "('p, 'w) env \<Rightarrow> ('p, 'w) sys \<Rightarrow> ('p, 'w) sys" where
  "free_previous_boot E s =
     (let s = (if sym_table (fw_info (boot_state s)) \<noteq> 0
               then call_bsp_free E (sym_table (fw_info (boot_state s))) s else s);
          s = (if alg_id_list (fw_info (boot_state s)) \<noteq> 0
               then call_bsp_free E (alg_id_list (fw_info (boot_state s))) s else s);
          s = (if block_data (boot_state s) \<noteq> 0
               then call_bsp_free E (block_data (boot_state s)) s else s)
      in s)"

text \<open>
  The whole function.  \<open>fuel\<close> bounds the number of tests of the loop condition; the
  part before the loop needs none.
\<close>

definition bsp_dut_boot ::
  "nat \<Rightarrow> ('p::zero, 'w) env \<Rightarrow> bool \<Rightarrow> ('p, 'w) sys \<Rightarrow> u32 option \<times> ('p, 'w) sys" where
  "bsp_dut_boot fuel E cal_boot s =
     (let fw_img = (if \<not> cal_boot then cs40l25_fw_img E else cs40l25_cal_fw_img E);
          fw_img_end = (if \<not> cal_boot then cs40l25_fw_img E + cs40l25_fw_img_size E
                        else cs40l25_cal_fw_img E + cs40l25_cal_fw_img_size E)
      in case call_cs40l25_boot E None s of (ret, s) \<Rightarrow>
      if ret \<noteq> CS40L25_STATUS_OK E then (Some ret, s)
      else
        (let s = free_previous_boot E s;
             s = memset_boot_state s;
             write_size = 1024;
             s = set_fw_img_blocks fw_img write_size s
         in case call_fw_img_read_header E s of (ret, s) \<Rightarrow>
         if ret \<noteq> 0 then (Some BSP_STATUS_FAIL, s)
         else
           (case call_bsp_malloc E
                   (sym_table_size (header (fw_info (boot_state s))) * sizeof_sym_table_t E) s of
              (p, s) \<Rightarrow>
           let s = set_sym_table p s in
           if sym_table (fw_info (boot_state s)) = 0 then (Some BSP_STATUS_FAIL, s)
           else
             (case call_bsp_malloc E
                     (alg_id_list_size (header (fw_info (boot_state s))) * 4) s of
                (p, s) \<Rightarrow>
             let s = set_alg_id_list p s in
             if alg_id_list (fw_info (boot_state s)) = 0 then (Some BSP_STATUS_FAIL, s)
             else
               (let s = (if img_format_rev (preheader (fw_info (boot_state s))) = 1
                         then set_block_data_size 4140 s
                         else set_block_data_size
                                (max_block_size (header (fw_info (boot_state s)))) s)
                in case call_bsp_malloc E (block_data_size (boot_state s)) s of
                   (p, s) \<Rightarrow>
                let s = set_block_data p s in
                if block_data (boot_state s) = 0 then (Some BSP_STATUS_FAIL, s)
                else boot_loop fuel E fw_img_end fw_img write_size s)))))"

subsection \<open>\<^verbatim>\<open>bsp_dut_update_haptic_config\<close>\<close>

text \<open>
  The function hands the driver the address of \<^verbatim>\<open>cs40l25_haptic_configs[config_index]\<close>,
  and the driver reads the configuration through it.  C gives no meaning to that read when
  the address is not that of an element of the array; the model reports it as
  \<open>Inl (Read_outside_array i)\<close> instead of a status.  The quotient of the two
  \<^verbatim>\<open>sizeof\<close>s in the guard is the number of elements of the array.
\<close>

datatype access_error = Read_outside_array nat

definition bsp_dut_update_haptic_config ::
  "('p, 'w) env \<Rightarrow> u8 \<Rightarrow> 'w \<Rightarrow> (access_error + u32) \<times> 'w" where
  "bsp_dut_update_haptic_config E config_index w =
     (if unat config_index > length cs40l25_haptic_configs then (Inr BSP_STATUS_FAIL, w)
      else if length cs40l25_haptic_configs \<le> unat config_index
        then (Inl (Read_outside_array (unat config_index)), w)
      else
        (case cs40l25_update_haptic_config E (cs40l25_haptic_configs ! unat config_index) w of
           (ret, w) \<Rightarrow>
             if ret = CS40L25_STATUS_OK E then (Inr BSP_STATUS_OK, w)
             else (Inr BSP_STATUS_FAIL, w)))"

subsection \<open>Reading the call log\<close>

text \<open>The calls made between two states of the same run.\<close>

definition new_calls :: "('p, 'w) sys \<Rightarrow> ('p, 'w) sys \<Rightarrow> 'p event list" where
  "new_calls s s' = drop (length (calls s)) (calls s')"

text \<open>A call of the device-commit collaborator: \<^verbatim>\<open>cs40l25_boot\<close> with a firmware descriptor.\<close>

fun is_commit :: "'p event \<Rightarrow> bool" where
  "is_commit (Ev_boot (Some fi) r) = True"
| "is_commit e = False"

text \<open>
  The calls whose outcome \<^verbatim>\<open>bsp_dut_boot\<close> treats as an error: a header decode with a
  non-zero status, an allocation that returned \<^verbatim>\<open>NULL\<close>, a block write that returned
  \<^verbatim>\<open>CS40L25_STATUS_FAIL\<close>, a parser step that returned \<^verbatim>\<open>FW_IMG_STATUS_FAIL\<close>.
\<close>

fun is_error_event :: "('p, 'w) env \<Rightarrow> 'p event \<Rightarrow> bool" where
  "is_error_event E (Ev_read_header bs r bs') = (r \<noteq> 0)"
| "is_error_event E (Ev_malloc n p) = (p = 0)"
| "is_error_event E (Ev_write_block a d n r) = (r = CS40L25_STATUS_FAIL E)"
| "is_error_event E (Ev_process bs r bs') = (r = FW_IMG_STATUS_FAIL E)"
| "is_error_event E e = False"

text \<open>The allocations of a log (size requested, pointer returned) and the pointers freed.\<close>

fun malloc_calls :: "'p event list \<Rightarrow> (u32 \<times> ptr) list" where
  "malloc_calls [] = []"
| "malloc_calls (Ev_malloc n p # es) = (n, p) # malloc_calls es"
| "malloc_calls (e # es) = malloc_calls es"

fun free_calls :: "'p event list \<Rightarrow> ptr list" where
  "free_calls [] = []"
| "free_calls (Ev_free p # es) = p # free_calls es"
| "free_calls (e # es) = free_calls es"

text \<open>The buffers a boot state holds: its non-\<^verbatim>\<open>NULL\<close> pointers, in the order they are freed.\<close>

definition held_buffers :: "'p fw_img_boot_state_t \<Rightarrow> ptr list" where
  "held_buffers bs =
     filter (\<lambda>p. p \<noteq> 0) [sym_table (fw_info bs), alg_id_list (fw_info bs), block_data bs]"

text \<open>
  The sizes \<^verbatim>\<open>bsp_dut_boot\<close> asks the allocator for, from a decoded header: symbol table,
  algorithm-ID list, block buffer.
\<close>

definition buffer_sizes :: "('p, 'w) env \<Rightarrow> 'p fw_img_boot_state_t \<Rightarrow> u32 list" where
  "buffer_sizes E bs =
     [ sym_table_size (header (fw_info bs)) * sizeof_sym_table_t E,
       alg_id_list_size (header (fw_info bs)) * 4,
       if img_format_rev (preheader (fw_info bs)) = 1 then 4140
       else max_block_size (header (fw_info bs)) ]"

text \<open>The statuses the parser steps of a log returned, and those the commits returned.\<close>

fun process_results :: "'p event list \<Rightarrow> u32 list" where
  "process_results [] = []"
| "process_results (Ev_process bi st bo # es) = st # process_results es"
| "process_results (e # es) = process_results es"

fun commit_results :: "'p event list \<Rightarrow> u32 list" where
  "commit_results [] = []"
| "commit_results (Ev_boot (Some fi) r # es) = r # commit_results es"
| "commit_results (e # es) = commit_results es"

text \<open>
  What follows a parser step that reported a block, in a log of a run that returned \<open>r\<close>
  (\<open>None\<close> when the fuel ran out): the write of that block, with the address and length
  the parser left in the boot state \<open>bo\<close> and its block buffer; after a failed write
  nothing, and the run returned \<^verbatim>\<open>BSP_STATUS_FAIL\<close>; after any other write the next parser
  step, started on \<open>bo\<close> itself, unless the fuel ran out there.
\<close>

fun block_forwarding :: "('p, 'w) env \<Rightarrow> u32 option \<Rightarrow> 'p event list \<Rightarrow> bool" where
  "block_forwarding E r [] = True"
| "block_forwarding E r (Ev_process bi st bo # es) =
     ((st = FW_IMG_STATUS_DATA_READY E \<longrightarrow>
        (case es of
           Ev_write_block a d l wr # es' \<Rightarrow>
             a = block_addr (block bo) \<and> d = block_data bo \<and> l = block_size (block bo) \<and>
             (if wr = CS40L25_STATUS_FAIL E then es' = [] \<and> r = Some BSP_STATUS_FAIL
              else (case es' of
                      [] \<Rightarrow> r = None
                    | Ev_process bi' st' bo' # es'' \<Rightarrow> bi' = bo
                    | _ \<Rightarrow> False))
         | _ \<Rightarrow> False)) \<and>
      block_forwarding E r es)"
| "block_forwarding E r (e # es) = block_forwarding E r es"

text \<open>
  Replaying a log against the collaborators.  Starting from the world \<open>w\<close>, every entry
  must be the true outcome of its call in the world reached so far: the status, pointer
  or boot state recorded is the one the collaborator of \<open>E\<close> returns there, and the next
  entry is replayed in the world that call leaves.  The result is the world after the last
  entry, or \<open>None\<close> when an entry is not what the collaborator answers.
\<close>

fun replay :: "('p, 'w) env \<Rightarrow> 'w \<Rightarrow> 'p event list \<Rightarrow> 'w option" where
  "replay E w [] = Some w"
| "replay E w (Ev_boot arg r # es) =
     (if fst (cs40l25_boot E arg w) = r then replay E (snd (cs40l25_boot E arg w)) es else None)"
| "replay E w (Ev_free p # es) = replay E (bsp_free E p w) es"
| "replay E w (Ev_memset # es) = replay E w es"
| "replay E w (Ev_read_header bi r bo # es) =
     (if fst (fw_img_read_header E bi w) = (r, bo)
      then replay E (snd (fw_img_read_header E bi w)) es else None)"
| "replay E w (Ev_malloc n p # es) =
     (if fst (bsp_malloc E n w) = p then replay E (snd (bsp_malloc E n w)) es else None)"
| "replay E w (Ev_process bi r bo # es) =
     (if fst (fw_img_process E bi w) = (r, bo)
      then replay E (snd (fw_img_process E bi w)) es else None)"
| "replay E w (Ev_write_block a d n r # es) =
     (if fst (cs40l25_write_block E a d n w) = r
      then replay E (snd (cs40l25_write_block E a d n w)) es else None)"

text \<open>
  Boot states met on the way to the loop: the zeroed state pointing at the first chunk,
  which the header decoder is given, and a decoded state with the freshly allocated
  tables stored in it.
\<close>

definition first_chunk :: "ptr \<Rightarrow> ('p::zero) fw_img_boot_state_t" where
  "first_chunk fw_img = zeroed_boot_state\<lparr>fw_img_blocks := fw_img, fw_img_blocks_size := 1024\<rparr>"

definition with_sym_table :: "ptr \<Rightarrow> 'p fw_img_boot_state_t \<Rightarrow> 'p fw_img_boot_state_t" where
  "with_sym_table p bs = bs\<lparr>fw_info := (fw_info bs)\<lparr>sym_table := p\<rparr>\<rparr>"

definition with_buffers ::
  "ptr \<Rightarrow> ptr \<Rightarrow> 'p fw_img_boot_state_t \<Rightarrow> 'p fw_img_boot_state_t" where
  "with_buffers p1 p2 bs = bs\<lparr>fw_info := (fw_info bs)\<lparr>sym_table := p1, alg_id_list := p2\<rparr>\<rparr>"

text \<open>
  The order of header decode, allocations and block writes in a log: \<open>h\<close> tells whether a
  header decode has succeeded so far, \<open>k\<close> counts the allocations that have.
\<close>

fun decode_alloc_write_order :: "bool \<Rightarrow> nat \<Rightarrow> 'p event list \<Rightarrow> bool" where
  "decode_alloc_write_order h k [] = True"
| "decode_alloc_write_order h k (Ev_read_header bs r bs' # es) =
     decode_alloc_write_order (h \<or> r = 0) k es"
| "decode_alloc_write_order h k (Ev_malloc n p # es) =
     (h \<and> decode_alloc_write_order h (if p = 0 then k else Suc k) es)"
| "decode_alloc_write_order h k (Ev_write_block a d n r # es) =
     (3 \<le> k \<and> decode_alloc_write_order h k es)"
| "decode_alloc_write_order h k (e # es) = decode_alloc_write_order h k es"

text \<open>
  The parser and the header decoder leave the three buffer pointers of the boot state as
  they found them.
\<close>

definition keeps_buffers :: "('p, 'w) env \<Rightarrow> bool" where
  "keeps_buffers E \<longleftrightarrow>
     (\<forall>bs w. held_buffers (snd (fst (fw_img_process E bs w))) = held_buffers bs) \<and>
     (\<forall>bs w. held_buffers (snd (fst (fw_img_read_header E bs w))) = held_buffers bs)"

subsection \<open>A small concrete platform\<close>

text \<open>
  A platform on which the functions above can be run: status codes \<open>OK = 0\<close>,
  \<open>FAIL = 1\<close>, \<open>NODATA = 2\<close>, \<open>DATA_READY = 3\<close>, eight-byte symbol-table entries, a
  firmware image of 1500 bytes at \<open>0x1000\<close> and a calibration image of 1024 bytes at
  \<open>0x8000\<close>.  The world is the number of parser steps taken so far.  The header decoder
  reports format revision 2, two symbols, one algorithm ID and blocks of at most 32
  bytes; the parser reports one block of 8 bytes for device address \<open>0x2000\<close> on its
  first step and asks for more input afterwards.  The driver accepts everything and the
  allocator hands out the address \<open>0x400 + size\<close>.
\<close>

definition demo_read_header ::
  "nat fw_img_boot_state_t \<Rightarrow> nat \<Rightarrow> (u32 \<times> nat fw_img_boot_state_t) \<times> nat" where
  "demo_read_header bs w =
     ((0, bs\<lparr>fw_info := (fw_info bs)\<lparr>preheader := \<lparr>img_format_rev = 2\<rparr>,
              header := \<lparr>sym_table_size = 2, alg_id_list_size = 1, max_block_size = 32\<rparr>\<rparr>\<rparr>), w)"

definition demo_process ::
  "nat fw_img_boot_state_t \<Rightarrow> nat \<Rightarrow> (u32 \<times> nat fw_img_boot_state_t) \<times> nat" where
  "demo_process bs w =
     ((if w = 0 then 3 else 2, bs\<lparr>block := \<lparr>block_addr = 0x2000, block_size = 8\<rparr>\<rparr>), Suc w)"

definition demo_env :: "(nat, nat) env" where
  "demo_env =
     \<lparr> CS40L25_STATUS_OK = 0, CS40L25_STATUS_FAIL = 1,
       FW_IMG_STATUS_FAIL = 1, FW_IMG_STATUS_NODATA = 2, FW_IMG_STATUS_DATA_READY = 3,
       sizeof_sym_table_t = 8,
       cs40l25_fw_img = 0x1000, cs40l25_fw_img_size = 1500,
       cs40l25_cal_fw_img = 0x8000, cs40l25_cal_fw_img_size = 1024,
       cs40l25_boot = (\<lambda>arg w. (0, w)),
       cs40l25_write_block = (\<lambda>a d n w. (0, w)),
       bsp_malloc = (\<lambda>n w. (0x400 + n, w)),
       bsp_free = (\<lambda>p w. w),
       fw_img_read_header = demo_read_header,
       fw_img_process = demo_process,
       cs40l25_update_haptic_config = (\<lambda>c w. (0, w)) \<rparr>"

text \<open>The state before the first boot: the statics are zero-initialised.\<close>

definition demo_start :: "(nat, nat) sys" where
  "demo_start =
     \<lparr> boot_state = zeroed_boot_state, current_halo_heartbeat = 0, world = 0, calls = [] \<rparr>"

text \<open>
  Variants of the platform: a driver that refuses the initial \<^verbatim>\<open>cs40l25_boot\<close> call, and
  one that fails every block write.
\<close>

definition demo_env_boot_fail :: "(nat, nat) env" where
  "demo_env_boot_fail = demo_env\<lparr>cs40l25_boot := (\<lambda>arg w. (1, w))\<rparr>"

definition demo_env_write_fail :: "(nat, nat) env" where
  "demo_env_write_fail = demo_env\<lparr>cs40l25_write_block := (\<lambda>a d n w. (1, w))\<rparr>"

text \<open>The state a successful boot of the firmware image leaves behind, with an empty log.\<close>

definition demo_booted :: "(nat, nat) sys" where
  "demo_booted =
     \<lparr> boot_state =
         \<lparr> fw_info = \<lparr> preheader = \<lparr> img_format_rev = 2 \<rparr>,
                       header = \<lparr> sym_table_size = 2, alg_id_list_size = 1, max_block_size = 32 \<rparr>,
                       sym_table = 0x410, alg_id_list = 0x404 \<rparr>,
           block = \<lparr> block_addr = 0x2000, block_size = 8 \<rparr>,
           block_data = 0x420, block_data_size = 32,
           fw_img_blocks = 0x15DC, fw_img_blocks_size = 0,
           parser_private = 0 \<rparr>,
       current_halo_heartbeat = 0, world = 3, calls = [] \<rparr>"

text \<open>
  Further variants: a device whose calls leave a trace in the world (a freed buffer adds
  1000 to it, a block write 10, a commit 100) and whose commit returns the status 7; a
  calibration image of only 500 bytes, shorter than one chunk; and a header that
  announces \<open>0x20000001\<close> symbols and \<open>0x40000001\<close> algorithm IDs.
\<close>

definition demo_env_device :: "(nat, nat) env" where
  "demo_env_device =
     demo_env\<lparr>cs40l25_boot := (\<lambda>arg w. case arg of None \<Rightarrow> (0, w) | Some fi \<Rightarrow> (7, w + 100)),
       cs40l25_write_block := (\<lambda>a d n w. (0, w + 10)),
       bsp_free := (\<lambda>p w. w + 1000)\<rparr>"

definition demo_env_short :: "(nat, nat) env" where
  "demo_env_short = demo_env\<lparr>cs40l25_cal_fw_img_size := 500\<rparr>"

definition demo_read_header_huge ::
  "nat fw_img_boot_state_t \<Rightarrow> nat \<Rightarrow> (u32 \<times> nat fw_img_boot_state_t) \<times> nat" where
  "demo_read_header_huge bs w =
     ((0, bs\<lparr>fw_info := (fw_info bs)\<lparr>preheader := \<lparr>img_format_rev = 2\<rparr>,
              header := \<lparr>sym_table_size = 0x20000001, alg_id_list_size = 0x40000001,
                         max_block_size = 32\<rparr>\<rparr>\<rparr>), w)"

definition demo_env_huge :: "(nat, nat) env" where
  "demo_env_huge = demo_env\<lparr>fw_img_read_header := demo_read_header_huge\<rparr>"

section \<open>Properties\<close>

subsection \<open>Unfolding the model\<close>

lemmas call_defs =
  call_cs40l25_boot_def call_cs40l25_write_block_def call_bsp_malloc_def call_bsp_free_def
  call_fw_img_read_header_def call_fw_img_process_def memset_boot_state_def log_call_def
  set_sym_table_def set_alg_id_list_def set_block_data_size_def set_block_data_def
  set_fw_img_blocks_def

lemma boot_loop_body_calls:
  "\<exists>tr. calls (case boot_loop_body E e f w s of Inl (r, s1) \<Rightarrow> s1 | Inr (f', w', s1) \<Rightarrow> s1) = calls s @ tr"
  by (auto simp: boot_loop_body_def call_defs Let_def split: prod.splits)

lemma boot_loop_calls_ext: "\<exists>tr. calls (snd (boot_loop n E e f w s)) = calls s @ tr"
proof (induction n arbitrary: f w s)
  case 0
  show ?case by simp
next
  case (Suc n)
  show ?case
  proof (cases "f < e")
    case False
    then show ?thesis by (simp add: call_defs split: prod.splits)
  next
    case True
    show ?thesis
    proof (cases "boot_loop_body E e f w s")
      case (Inl a)
      with True boot_loop_body_calls [of E e f w s] show ?thesis
        by (auto split: prod.splits)
    next
      case (Inr b)
      obtain f' w' s1 where b: "b = (f', w', s1)" by (cases b)
      from Inr b boot_loop_body_calls [of E e f w s] obtain tr where "calls s1 = calls s @ tr"
        by auto
      moreover from Suc.IH [of f' w' s1] obtain tr' where
        "calls (snd (boot_loop n E e f' w' s1)) = calls s1 @ tr'" by blast
      ultimately show ?thesis using True Inr b by simp
    qed
  qed
qed

lemma new_calls_boot_loop_exit:
  "\<not> f < e \<Longrightarrow>
   new_calls s (snd (boot_loop (Suc n) E e f w s)) =
     [Ev_boot (Some (fw_info (boot_state s)))
        (fst (cs40l25_boot E (Some (fw_info (boot_state s))) (world s)))]"
  by (simp add: call_cs40l25_boot_def log_call_def new_calls_def split: prod.splits)

lemma new_calls_boot_loop_return:
  "f < e \<Longrightarrow> boot_loop_body E e f w s = Inl (r, s1) \<Longrightarrow>
   new_calls s (snd (boot_loop (Suc n) E e f w s)) = new_calls s s1"
  by simp

lemma new_calls_boot_loop_continue:
  assumes a: "f < e" "boot_loop_body E e f w s = Inr (f', w', s1)"
  shows "new_calls s (snd (boot_loop (Suc n) E e f w s)) =
           new_calls s s1 @ new_calls s1 (snd (boot_loop n E e f' w' s1))"
proof -
  from a boot_loop_body_calls [of E e f w s] obtain tr where tr: "calls s1 = calls s @ tr"
      by auto
  from boot_loop_calls_ext [of n E e f' w' s1] obtain tr' where
      tr': "calls (snd (boot_loop n E e f' w' s1)) = calls s1 @ tr'" by blast
  have "boot_loop (Suc n) E e f w s = boot_loop n E e f' w' s1" using a by simp
  then show ?thesis using tr tr' by (simp add: new_calls_def)
qed

lemma new_calls_boot_loop_Suc:
  "new_calls s (snd (boot_loop (Suc n) E e f w s)) =
     (if f < e then
        (case boot_loop_body E e f w s of
           Inl (r, s1) \<Rightarrow> new_calls s s1
         | Inr (f', w', s1) \<Rightarrow> new_calls s s1 @ new_calls s1 (snd (boot_loop n E e f' w' s1)))
      else [Ev_boot (Some (fw_info (boot_state s)))
              (fst (cs40l25_boot E (Some (fw_info (boot_state s))) (world s)))])"
  using new_calls_boot_loop_exit [of f e s n E w] new_calls_boot_loop_return [of f e E w s _ _ n]
    new_calls_boot_loop_continue [of f e E w s _ _ _ n]
  by (auto split: sum.splits simp del: boot_loop.simps)

lemma free_previous_boot_eq:
  "free_previous_boot E s =
     s\<lparr>world := fold (bsp_free E) (held_buffers (boot_state s)) (world s),
       calls := calls s @ map Ev_free (held_buffers (boot_state s))\<rparr>"
  by (simp add: free_previous_boot_def call_bsp_free_def log_call_def held_buffers_def Let_def)

lemma bsp_dut_boot_unfold:
  fixes E :: "('p::zero, 'w) env"
  assumes fw: "fw_img = (if \<not> cal_boot then cs40l25_fw_img E else cs40l25_cal_fw_img E)"
      and fe: "fw_img_end = (if \<not> cal_boot then cs40l25_fw_img E + cs40l25_fw_img_size E
                             else cs40l25_cal_fw_img E + cs40l25_cal_fw_img_size E)"
      and b0: "cs40l25_boot E None (world s) = (r0, w0)"
      and hd: "fw_img_read_header E (first_chunk fw_img)
                 (fold (bsp_free E) (held_buffers (boot_state s)) w0) = ((rh, bsh), wh)"
      and sz: "buffer_sizes E bsh = [sz1, sz2, sz3]"
      and m1: "bsp_malloc E sz1 wh = (p1, w1)"
      and m2: "bsp_malloc E sz2 w1 = (p2, w2)"
      and m3: "bsp_malloc E sz3 w2 = (p3, w3)"
      and pre: "pre = Ev_boot None r0 # map Ev_free (held_buffers (boot_state s)) @
                        [Ev_memset, Ev_read_header (first_chunk fw_img) rh bsh]"
  shows "bsp_dut_boot n E cal_boot s =
    (if r0 \<noteq> CS40L25_STATUS_OK E
       then (Some r0, s\<lparr>world := w0, calls := calls s @ [Ev_boot None r0]\<rparr>)
     else if rh \<noteq> 0
       then (Some BSP_STATUS_FAIL, s\<lparr>boot_state := bsh, world := wh, calls := calls s @ pre\<rparr>)
     else if p1 = 0
       then (Some BSP_STATUS_FAIL,
             s\<lparr>world := w1, calls := calls s @ pre @ [Ev_malloc sz1 p1],
               boot_state := with_sym_table p1 bsh\<rparr>)
     else if p2 = 0
       then (Some BSP_STATUS_FAIL,
             s\<lparr>world := w2, calls := calls s @ pre @ [Ev_malloc sz1 p1, Ev_malloc sz2 p2],
               boot_state := with_buffers p1 p2 bsh\<rparr>)
     else if p3 = 0
       then (Some BSP_STATUS_FAIL,
             s\<lparr>world := w3,
               calls := calls s @ pre @ [Ev_malloc sz1 p1, Ev_malloc sz2 p2, Ev_malloc sz3 p3],
               boot_state := (with_buffers p1 p2 bsh)\<lparr>block_data_size := sz3, block_data := p3\<rparr>\<rparr>)
     else boot_loop n E fw_img_end fw_img 1024
            (s\<lparr>world := w3,
               calls := calls s @ pre @ [Ev_malloc sz1 p1, Ev_malloc sz2 p2, Ev_malloc sz3 p3],
               boot_state := (with_buffers p1 p2 bsh)\<lparr>block_data_size := sz3, block_data := p3\<rparr>\<rparr>))"
proof -
  note defs = Let_def call_cs40l25_boot_def b0 hd pre log_call_def free_previous_boot_eq
    memset_boot_state_def set_fw_img_blocks_def call_fw_img_read_header_def
    first_chunk_def [symmetric] call_bsp_malloc_def set_sym_table_def set_alg_id_list_def
    set_block_data_size_def set_block_data_def with_buffers_def with_sym_table_def
  from sz have s1: "sym_table_size (header (fw_info bsh)) * sizeof_sym_table_t E = sz1"
    and s2: "alg_id_list_size (header (fw_info bsh)) * 4 = sz2"
    and s3: "(if img_format_rev (preheader (fw_info bsh)) = 1 then 4140
              else max_block_size (header (fw_info bsh))) = sz3"
    by (simp_all add: buffer_sizes_def)
  consider (a) "r0 \<noteq> CS40L25_STATUS_OK E"
    | (b) "r0 = CS40L25_STATUS_OK E" "rh \<noteq> 0"
    | (c) "r0 = CS40L25_STATUS_OK E" "rh = 0" "p1 = 0"
    | (d) "r0 = CS40L25_STATUS_OK E" "rh = 0" "p1 \<noteq> 0" "p2 = 0"
    | (e) "r0 = CS40L25_STATUS_OK E" "rh = 0" "p1 \<noteq> 0" "p2 \<noteq> 0"
    by blast
  then show ?thesis
  proof cases
    case a
    then show ?thesis
      unfolding bsp_dut_boot_def fw [symmetric] fe [symmetric]
      by (simp add: defs split del: if_split)
  next
    case b
    then show ?thesis
      unfolding bsp_dut_boot_def fw [symmetric] fe [symmetric]
      by (simp add: defs split del: if_split)
  next
    case c
    then show ?thesis
      using m1 unfolding bsp_dut_boot_def fw [symmetric] fe [symmetric]
      by (simp add: defs s1 split del: if_split)
  next
    case d
    then show ?thesis
      using m1 m2 unfolding bsp_dut_boot_def fw [symmetric] fe [symmetric]
      by (simp add: defs s1 s2 split del: if_split)
  next
    case e
    show ?thesis
    proof (cases "img_format_rev (preheader (fw_info bsh)) = 1")
      case True
      with s3 have "sz3 = 4140" by simp
      with e True show ?thesis
        using m1 m2 m3 unfolding bsp_dut_boot_def fw [symmetric] fe [symmetric]
        by (cases "p3 = 0"; simp add: defs s1 s2 split del: if_split)
    next
      case False
      with s3 have "sz3 = max_block_size (header (fw_info bsh))" by simp
      with e False show ?thesis
        using m1 m2 m3 unfolding bsp_dut_boot_def fw [symmetric] fe [symmetric]
        by (cases "p3 = 0"; simp add: defs s1 s2 split del: if_split)
    qed
  qed
qed

lemma boot_loop_body_unfold:
  assumes pr: "fw_img_process E (boot_state s) (world s) = ((st, bo), w1)"
      and wr: "cs40l25_write_block E (block_addr (block bo)) (block_data bo)
                 (block_size (block bo)) w1 = (wr, w2)"
      and ev: "ev = Ev_process (boot_state s) st bo"
  shows "boot_loop_body E e f ws s =
     (if st = FW_IMG_STATUS_DATA_READY E then
        (if wr = CS40L25_STATUS_FAIL E
         then Inl (BSP_STATUS_FAIL,
                   s\<lparr>boot_state := bo, world := w2,
                     calls := calls s @ [ev, Ev_write_block (block_addr (block bo)) (block_data bo)
                                               (block_size (block bo)) wr]\<rparr>)
         else Inr (f, ws,
                   s\<lparr>boot_state := bo, world := w2,
                     calls := calls s @ [ev, Ev_write_block (block_addr (block bo)) (block_data bo)
                                               (block_size (block bo)) wr]\<rparr>))
      else if st = FW_IMG_STATUS_FAIL E
        then Inl (BSP_STATUS_FAIL, s\<lparr>boot_state := bo, world := w1, calls := calls s @ [ev]\<rparr>)
      else if st = FW_IMG_STATUS_NODATA E
        then Inr (f + ws, (if e - (f + ws) < ws then e - (f + ws) else ws),
                  s\<lparr>world := w1, calls := calls s @ [ev],
                    boot_state := bo\<lparr>fw_img_blocks := f + ws,
                      fw_img_blocks_size := (if e - (f + ws) < ws then e - (f + ws) else ws)\<rparr>\<rparr>)
      else Inr (f + ws, ws, s\<lparr>boot_state := bo, world := w1, calls := calls s @ [ev]\<rparr>))"
  by (simp add: boot_loop_body_def call_fw_img_process_def call_cs40l25_write_block_def
        log_call_def set_fw_img_blocks_def pr wr ev Let_def)

lemma new_calls_boot_loop_unfold:
  assumes pr: "fw_img_process E (boot_state s) (world s) = ((st, bo), w1)"
      and wr: "cs40l25_write_block E (block_addr (block bo)) (block_data bo)
                 (block_size (block bo)) w1 = (wr, w2)"
      and ev: "ev = Ev_process (boot_state s) st bo"
      and evw: "evw = Ev_write_block (block_addr (block bo)) (block_data bo)
                        (block_size (block bo)) wr"
  shows "new_calls s (snd (boot_loop (Suc n) E e f ws s)) =
     (if f < e then
        (if st = FW_IMG_STATUS_DATA_READY E then
           (if wr = CS40L25_STATUS_FAIL E then [ev, evw]
            else ev # evw # new_calls (s\<lparr>boot_state := bo, world := w2, calls := calls s @ [ev, evw]\<rparr>)
                   (snd (boot_loop n E e f ws
                      (s\<lparr>boot_state := bo, world := w2, calls := calls s @ [ev, evw]\<rparr>))))
         else if st = FW_IMG_STATUS_FAIL E then [ev]
         else if st = FW_IMG_STATUS_NODATA E
           then ev # new_calls
                  (s\<lparr>world := w1, calls := calls s @ [ev],
                    boot_state := bo\<lparr>fw_img_blocks := f + ws,
                      fw_img_blocks_size := (if e - (f + ws) < ws then e - (f + ws) else ws)\<rparr>\<rparr>)
                  (snd (boot_loop n E e (f + ws) (if e - (f + ws) < ws then e - (f + ws) else ws)
                     (s\<lparr>world := w1, calls := calls s @ [ev],
                        boot_state := bo\<lparr>fw_img_blocks := f + ws,
                          fw_img_blocks_size := (if e - (f + ws) < ws then e - (f + ws) else ws)\<rparr>\<rparr>)))
         else ev # new_calls (s\<lparr>boot_state := bo, world := w1, calls := calls s @ [ev]\<rparr>)
                (snd (boot_loop n E e (f + ws) ws
                   (s\<lparr>boot_state := bo, world := w1, calls := calls s @ [ev]\<rparr>))))
      else [Ev_boot (Some (fw_info (boot_state s)))
              (fst (cs40l25_boot E (Some (fw_info (boot_state s))) (world s)))])"
proof -
  have n1: "\<And>s' tr. calls s' = calls s @ tr \<Longrightarrow> new_calls s s' = tr"
    by (simp add: new_calls_def)
  note B = boot_loop_body_unfold [OF pr wr ev]
  show ?thesis
    unfolding new_calls_boot_loop_Suc B evw
    by (simp add: n1)
qed

lemma decode_alloc_write_order_loop:
  "3 \<le> k \<Longrightarrow> decode_alloc_write_order True k (new_calls s (snd (boot_loop n E e f ws s)))"
proof (induction n arbitrary: f ws s)
  case 0
  show ?case by (simp add: new_calls_def)
next
  case (Suc n)
  obtain st bo w1 where pr: "fw_img_process E (boot_state s) (world s) = ((st, bo), w1)"
    by (metis prod.exhaust)
  obtain wr w2 where wr: "cs40l25_write_block E (block_addr (block bo)) (block_data bo)
                 (block_size (block bo)) w1 = (wr, w2)"
    by (metis prod.exhaust)
  note N = new_calls_boot_loop_unfold [OF pr wr refl refl]
  from Suc.prems show ?case
    unfolding N by (simp add: Suc.IH)
qed

lemma boot_loop_Suc_unfold:
  assumes pr: "fw_img_process E (boot_state s) (world s) = ((st, bo), w1)"
      and wr: "cs40l25_write_block E (block_addr (block bo)) (block_data bo)
                 (block_size (block bo)) w1 = (wr, w2)"
      and cm: "cs40l25_boot E (Some (fw_info (boot_state s))) (world s) = (rc, wc)"
      and ev: "ev = Ev_process (boot_state s) st bo"
      and evw: "evw = Ev_write_block (block_addr (block bo)) (block_data bo)
                        (block_size (block bo)) wr"
  shows "boot_loop (Suc n) E e f ws s =
     (if f < e then
        (if st = FW_IMG_STATUS_DATA_READY E then
           (if wr = CS40L25_STATUS_FAIL E
            then (Some BSP_STATUS_FAIL,
                  s\<lparr>boot_state := bo, world := w2, calls := calls s @ [ev, evw]\<rparr>)
            else boot_loop n E e f ws
                   (s\<lparr>boot_state := bo, world := w2, calls := calls s @ [ev, evw]\<rparr>))
         else if st = FW_IMG_STATUS_FAIL E
           then (Some BSP_STATUS_FAIL,
                 s\<lparr>boot_state := bo, world := w1, calls := calls s @ [ev]\<rparr>)
         else if st = FW_IMG_STATUS_NODATA E
           then boot_loop n E e (f + ws) (if e - (f + ws) < ws then e - (f + ws) else ws)
                  (s\<lparr>world := w1, calls := calls s @ [ev],
                     boot_state := bo\<lparr>fw_img_blocks := f + ws,
                       fw_img_blocks_size := (if e - (f + ws) < ws then e - (f + ws) else ws)\<rparr>\<rparr>)
         else boot_loop n E e (f + ws) ws
                (s\<lparr>boot_state := bo, world := w1, calls := calls s @ [ev]\<rparr>))
      else (Some rc,
            s\<lparr>world := wc,
              calls := calls s @ [Ev_boot (Some (fw_info (boot_state s))) rc],
              current_halo_heartbeat := 0\<rparr>))"
  unfolding boot_loop.simps boot_loop_body_unfold [OF pr wr ev] evw
  by (simp add: call_cs40l25_boot_def log_call_def cm)

lemma new_calls_via:
  assumes "calls sL = calls s @ tr"
  shows "new_calls s (snd (boot_loop n E e f ws sL)) =
           tr @ new_calls sL (snd (boot_loop n E e f ws sL))"
proof -
  from boot_loop_calls_ext [of n E e f ws sL] obtain tr' where
    "calls (snd (boot_loop n E e f ws sL)) = calls sL @ tr'" by blast
  with assms show ?thesis by (simp add: new_calls_def)
qed

lemma bsp_dut_boot_calls:
  fixes E :: "('p::zero, 'w) env"
  assumes fw: "fw_img = (if \<not> cal_boot then cs40l25_fw_img E else cs40l25_cal_fw_img E)"
      and fe: "fw_img_end = (if \<not> cal_boot then cs40l25_fw_img E + cs40l25_fw_img_size E
                             else cs40l25_cal_fw_img E + cs40l25_cal_fw_img_size E)"
      and b0: "cs40l25_boot E None (world s) = (r0, w0)"
      and hd: "fw_img_read_header E (first_chunk fw_img)
                 (fold (bsp_free E) (held_buffers (boot_state s)) w0) = ((rh, bsh), wh)"
      and sz: "buffer_sizes E bsh = [sz1, sz2, sz3]"
      and m1: "bsp_malloc E sz1 wh = (p1, w1)"
      and m2: "bsp_malloc E sz2 w1 = (p2, w2)"
      and m3: "bsp_malloc E sz3 w2 = (p3, w3)"
      and pre: "pre = Ev_boot None r0 # map Ev_free (held_buffers (boot_state s)) @
                        [Ev_memset, Ev_read_header (first_chunk fw_img) rh bsh]"
      and sL: "sL = s\<lparr>world := w3,
               calls := calls s @ pre @ [Ev_malloc sz1 p1, Ev_malloc sz2 p2, Ev_malloc sz3 p3],
               boot_state := (with_buffers p1 p2 bsh)\<lparr>block_data_size := sz3, block_data := p3\<rparr>\<rparr>"
  shows "new_calls s (snd (bsp_dut_boot n E cal_boot s)) =
    (if r0 \<noteq> CS40L25_STATUS_OK E then [Ev_boot None r0]
     else if rh \<noteq> 0 then pre
     else if p1 = 0 then pre @ [Ev_malloc sz1 p1]
     else if p2 = 0 then pre @ [Ev_malloc sz1 p1, Ev_malloc sz2 p2]
     else if p3 = 0 then pre @ [Ev_malloc sz1 p1, Ev_malloc sz2 p2, Ev_malloc sz3 p3]
     else pre @ [Ev_malloc sz1 p1, Ev_malloc sz2 p2, Ev_malloc sz3 p3] @
          new_calls sL (snd (boot_loop n E fw_img_end fw_img 1024 sL)))"
proof -
  have c: "calls sL = calls s @ pre @ [Ev_malloc sz1 p1, Ev_malloc sz2 p2, Ev_malloc sz3 p3]"
    by (simp add: sL)
  have n1: "\<And>s' tr. calls s' = calls s @ tr \<Longrightarrow> new_calls s s' = tr"
    by (simp add: new_calls_def)
  show ?thesis
    unfolding bsp_dut_boot_unfold [OF fw fe b0 hd sz m1 m2 m3 pre] sL [symmetric]
    by (simp add: new_calls_via [OF c] n1 n1 [OF c])
qed

lemma bsp_dut_boot_status:
  fixes E :: "('p::zero, 'w) env"
  assumes fw: "fw_img = (if \<not> cal_boot then cs40l25_fw_img E else cs40l25_cal_fw_img E)"
      and fe: "fw_img_end = (if \<not> cal_boot then cs40l25_fw_img E + cs40l25_fw_img_size E
                             else cs40l25_cal_fw_img E + cs40l25_cal_fw_img_size E)"
      and b0: "cs40l25_boot E None (world s) = (r0, w0)"
      and hd: "fw_img_read_header E (first_chunk fw_img)
                 (fold (bsp_free E) (held_buffers (boot_state s)) w0) = ((rh, bsh), wh)"
      and sz: "buffer_sizes E bsh = [sz1, sz2, sz3]"
      and m1: "bsp_malloc E sz1 wh = (p1, w1)"
      and m2: "bsp_malloc E sz2 w1 = (p2, w2)"
      and m3: "bsp_malloc E sz3 w2 = (p3, w3)"
      and pre: "pre = Ev_boot None r0 # map Ev_free (held_buffers (boot_state s)) @
                        [Ev_memset, Ev_read_header (first_chunk fw_img) rh bsh]"
      and sL: "sL = s\<lparr>world := w3,
               calls := calls s @ pre @ [Ev_malloc sz1 p1, Ev_malloc sz2 p2, Ev_malloc sz3 p3],
               boot_state := (with_buffers p1 p2 bsh)\<lparr>block_data_size := sz3, block_data := p3\<rparr>\<rparr>"
  shows "fst (bsp_dut_boot n E cal_boot s) =
    (if r0 \<noteq> CS40L25_STATUS_OK E then Some r0
     else if rh \<noteq> 0 \<or> p1 = 0 \<or> p2 = 0 \<or> p3 = 0 then Some BSP_STATUS_FAIL
     else fst (boot_loop n E fw_img_end fw_img 1024 sL))"
  unfolding bsp_dut_boot_unfold [OF fw fe b0 hd sz m1 m2 m3 pre] sL [symmetric]
  by simp

lemma bsp_dut_boot_calls_ext:
  fixes E :: "('p::zero, 'w) env"
  shows "calls (snd (bsp_dut_boot n E cal_boot s)) =
           calls s @ new_calls s (snd (bsp_dut_boot n E cal_boot s))"
proof -
  define fw_img where "fw_img = (if \<not> cal_boot then cs40l25_fw_img E else cs40l25_cal_fw_img E)"
  define fw_img_end where
    "fw_img_end = (if \<not> cal_boot then cs40l25_fw_img E + cs40l25_fw_img_size E
                   else cs40l25_cal_fw_img E + cs40l25_cal_fw_img_size E)"
  obtain r0 w0 where b0: "cs40l25_boot E None (world s) = (r0, w0)"
    by (metis prod.exhaust)
  obtain rh bsh wh where hd: "fw_img_read_header E (first_chunk fw_img)
      (fold (bsp_free E) (held_buffers (boot_state s)) w0) = ((rh, bsh), wh)"
    by (metis prod.exhaust)
  obtain sz1 sz2 sz3 where sz: "buffer_sizes E bsh = [sz1, sz2, sz3]"
    by (simp add: buffer_sizes_def)
  obtain p1 w1 where m1: "bsp_malloc E sz1 wh = (p1, w1)" by (metis prod.exhaust)
  obtain p2 w2 where m2: "bsp_malloc E sz2 w1 = (p2, w2)" by (metis prod.exhaust)
  obtain p3 w3 where m3: "bsp_malloc E sz3 w2 = (p3, w3)" by (metis prod.exhaust)
  define pre where "pre = Ev_boot None r0 # map Ev_free (held_buffers (boot_state s)) @
                        [Ev_memset, Ev_read_header (first_chunk fw_img) rh bsh]"
  define sL where "sL = s\<lparr>world := w3,
               calls := calls s @ pre @ [Ev_malloc sz1 p1, Ev_malloc sz2 p2, Ev_malloc sz3 p3],
               boot_state := (with_buffers p1 p2 bsh)\<lparr>block_data_size := sz3, block_data := p3\<rparr>\<rparr>"
  note U = bsp_dut_boot_unfold [OF fw_img_def fw_img_end_def b0 hd sz m1 m2 m3 pre_def,
      folded sL_def]
  note S = bsp_dut_boot_status [OF fw_img_def fw_img_end_def b0 hd sz m1 m2 m3 pre_def sL_def]
  note C = bsp_dut_boot_calls [OF fw_img_def fw_img_end_def b0 hd sz m1 m2 m3 pre_def sL_def]

  from boot_loop_calls_ext [of n E fw_img_end fw_img 1024 sL] obtain tr where
    tr: "calls (snd (boot_loop n E fw_img_end fw_img 1024 sL)) = calls sL @ tr" by blast
  have cL: "calls sL = calls s @ pre @ [Ev_malloc sz1 p1, Ev_malloc sz2 p2, Ev_malloc sz3 p3]"
    by (simp add: sL_def)
  have "\<exists>tr. calls (snd (bsp_dut_boot n E cal_boot s)) = calls s @ tr"
    unfolding U by (simp add: tr cL)
  then show ?thesis by (auto simp: new_calls_def)
qed

lemmas demo_defs =
  demo_env_def demo_start_def demo_read_header_def demo_process_def demo_env_boot_fail_def
  demo_env_write_fail_def demo_booted_def demo_env_device_def demo_env_short_def
  demo_read_header_huge_def demo_env_huge_def

lemmas run_defs =
  bsp_dut_boot_def Let_def call_defs free_previous_boot_def boot_loop_body_def
  zeroed_boot_state_def new_calls_def

lemma demo_booted_reached:
  "boot_state (snd (bsp_dut_boot (Suc (Suc (Suc (Suc 0)))) demo_env False demo_start)) =
     boot_state demo_booted \<and>
   world (snd (bsp_dut_boot (Suc (Suc (Suc (Suc 0)))) demo_env False demo_start)) =
     world demo_booted"
  by (simp add: run_defs demo_defs)

subsection \<open>The log records what the collaborators answered\<close>

lemma replay_append:
  "replay E w (xs @ ys) = (case replay E w xs of None \<Rightarrow> None | Some w' \<Rightarrow> replay E w' ys)"
  by (induction E w xs rule: replay.induct) simp_all

lemma replay_map_free:
  "replay E w (map Ev_free ps) = Some (fold (bsp_free E) ps w)"
  by (induction ps arbitrary: w) simp_all

lemma replay_boot_loop:
  "world s = w \<Longrightarrow>
   replay E w (new_calls s (snd (boot_loop n E e f ws s))) =
     Some (world (snd (boot_loop n E e f ws s)))"
proof (induction n arbitrary: f ws s w)
  case 0
  then show ?case by (simp add: new_calls_def)
next
  case (Suc n)
  obtain st bo w1 where pr: "fw_img_process E (boot_state s) (world s) = ((st, bo), w1)"
    by (metis prod.exhaust)
  obtain wr w2 where wr: "cs40l25_write_block E (block_addr (block bo)) (block_data bo)
                 (block_size (block bo)) w1 = (wr, w2)"
    by (metis prod.exhaust)
  obtain rc wc where cm: "cs40l25_boot E (Some (fw_info (boot_state s))) (world s) = (rc, wc)"
    by (metis prod.exhaust)
  note N = new_calls_boot_loop_unfold [OF pr wr refl refl]
  note L = boot_loop_Suc_unfold [OF pr wr cm refl refl]
  from Suc.prems have w: "w = world s" by simp
  show ?case
    apply (unfold w)
    apply (unfold N)
    apply (unfold L)
    apply (simp add: Suc.IH pr wr cm)
    done
qed

text \<open>
  Every run of \<^verbatim>\<open>bsp_dut_boot\<close> logs exactly the calls it makes: replayed from the world
  on entry, each entry of the log is the answer of its collaborator, and the replay ends
  in the world the run leaves.
\<close>

lemma bsp_dut_boot_replay:
  fixes E :: "('p::zero, 'w) env"
  shows "replay E (world s) (new_calls s (snd (bsp_dut_boot n E cal_boot s))) =
           Some (world (snd (bsp_dut_boot n E cal_boot s)))"
proof -
  define fw_img where "fw_img = (if \<not> cal_boot then cs40l25_fw_img E else cs40l25_cal_fw_img E)"
  define fw_img_end where
    "fw_img_end = (if \<not> cal_boot then cs40l25_fw_img E + cs40l25_fw_img_size E
                   else cs40l25_cal_fw_img E + cs40l25_cal_fw_img_size E)"
  obtain r0 w0 where b0: "cs40l25_boot E None (world s) = (r0, w0)"
    by (metis prod.exhaust)
  obtain rh bsh wh where hd: "fw_img_read_header E (first_chunk fw_img)
      (fold (bsp_free E) (held_buffers (boot_state s)) w0) = ((rh, bsh), wh)"
    by (metis prod.exhaust)
  obtain sz1 sz2 sz3 where sz: "buffer_sizes E bsh = [sz1, sz2, sz3]"
    by (simp add: buffer_sizes_def)
  obtain p1 w1 where m1: "bsp_malloc E sz1 wh = (p1, w1)" by (metis prod.exhaust)
  obtain p2 w2 where m2: "bsp_malloc E sz2 w1 = (p2, w2)" by (metis prod.exhaust)
  obtain p3 w3 where m3: "bsp_malloc E sz3 w2 = (p3, w3)" by (metis prod.exhaust)
  define pre where "pre = Ev_boot None r0 # map Ev_free (held_buffers (boot_state s)) @
                        [Ev_memset, Ev_read_header (first_chunk fw_img) rh bsh]"
  define sL where "sL = s\<lparr>world := w3,
               calls := calls s @ pre @ [Ev_malloc sz1 p1, Ev_malloc sz2 p2, Ev_malloc sz3 p3],
               boot_state := (with_buffers p1 p2 bsh)\<lparr>block_data_size := sz3, block_data := p3\<rparr>\<rparr>"
  note U = bsp_dut_boot_unfold [OF fw_img_def fw_img_end_def b0 hd sz m1 m2 m3 pre_def,
      folded sL_def]
  note S = bsp_dut_boot_status [OF fw_img_def fw_img_end_def b0 hd sz m1 m2 m3 pre_def sL_def]
  note C = bsp_dut_boot_calls [OF fw_img_def fw_img_end_def b0 hd sz m1 m2 m3 pre_def sL_def]

  have wL: "world sL = w3" by (simp add: sL_def)
  have W: "world (snd (bsp_dut_boot n E cal_boot s)) =
    (if r0 \<noteq> CS40L25_STATUS_OK E then w0
     else if rh \<noteq> 0 then wh
     else if p1 = 0 then w1
     else if p2 = 0 then w2
     else if p3 = 0 then w3
     else world (snd (boot_loop n E fw_img_end fw_img 1024 sL)))"
    unfolding U by (simp add: wL)
  show ?thesis
    apply (unfold C)
    apply (unfold W)
    using replay_boot_loop [of sL w3 E n fw_img_end fw_img 1024]
    apply (simp add: pre_def replay_map_free replay_append b0 hd m1 m2 m3 wL)
    done
qed

subsection \<open>The initial call of \<^verbatim>\<open>cs40l25_boot\<close>\<close>

text \<open>
  Claim C9.  The first call \<^verbatim>\<open>bsp_dut_boot\<close> makes is \<^verbatim>\<open>cs40l25_boot\<close> with \<^verbatim>\<open>NULL\<close>, on
  the world as it was on entry; when that call returns a status other than
  \<^verbatim>\<open>CS40L25_STATUS_OK\<close>, \<^verbatim>\<open>bsp_dut_boot\<close> returns that status and the state is the
  state on entry but for what the call did to the world and the log: the boot state and
  its buffers are untouched.
\<close>

theorem bsp_dut_boot_null_boot_first:
  fixes E :: "('p::zero, 'w) env"
  shows "(\<exists>rest. new_calls s (snd (bsp_dut_boot n E cal_boot s)) =
                   Ev_boot None (fst (cs40l25_boot E None (world s))) # rest) \<and>
         (fst (cs40l25_boot E None (world s)) \<noteq> CS40L25_STATUS_OK E \<longrightarrow>
            bsp_dut_boot n E cal_boot s =
              (Some (fst (cs40l25_boot E None (world s))),
               s\<lparr>world := snd (cs40l25_boot E None (world s)),
                 calls := calls s @ [Ev_boot None (fst (cs40l25_boot E None (world s)))]\<rparr>))"
proof -
  define fw_img where "fw_img = (if \<not> cal_boot then cs40l25_fw_img E else cs40l25_cal_fw_img E)"
  define fw_img_end where
    "fw_img_end = (if \<not> cal_boot then cs40l25_fw_img E + cs40l25_fw_img_size E
                   else cs40l25_cal_fw_img E + cs40l25_cal_fw_img_size E)"
  obtain r0 w0 where b0: "cs40l25_boot E None (world s) = (r0, w0)"
    by (metis prod.exhaust)
  obtain rh bsh wh where hd: "fw_img_read_header E (first_chunk fw_img)
      (fold (bsp_free E) (held_buffers (boot_state s)) w0) = ((rh, bsh), wh)"
    by (metis prod.exhaust)
  obtain sz1 sz2 sz3 where sz: "buffer_sizes E bsh = [sz1, sz2, sz3]"
    by (simp add: buffer_sizes_def)
  obtain p1 w1 where m1: "bsp_malloc E sz1 wh = (p1, w1)" by (metis prod.exhaust)
  obtain p2 w2 where m2: "bsp_malloc E sz2 w1 = (p2, w2)" by (metis prod.exhaust)
  obtain p3 w3 where m3: "bsp_malloc E sz3 w2 = (p3, w3)" by (metis prod.exhaust)
  define pre where "pre = Ev_boot None r0 # map Ev_free (held_buffers (boot_state s)) @
                        [Ev_memset, Ev_read_header (first_chunk fw_img) rh bsh]"
  define sL where "sL = s\<lparr>world := w3,
               calls := calls s @ pre @ [Ev_malloc sz1 p1, Ev_malloc sz2 p2, Ev_malloc sz3 p3],
               boot_state := (with_buffers p1 p2 bsh)\<lparr>block_data_size := sz3, block_data := p3\<rparr>\<rparr>"
  note U = bsp_dut_boot_unfold [OF fw_img_def fw_img_end_def b0 hd sz m1 m2 m3 pre_def,
      folded sL_def]
  note S = bsp_dut_boot_status [OF fw_img_def fw_img_end_def b0 hd sz m1 m2 m3 pre_def sL_def]
  note C = bsp_dut_boot_calls [OF fw_img_def fw_img_end_def b0 hd sz m1 m2 m3 pre_def sL_def]

  have "\<exists>rest. new_calls s (snd (bsp_dut_boot n E cal_boot s)) = Ev_boot None r0 # rest"
    unfolding C by (simp add: pre_def)
  moreover have "r0 \<noteq> CS40L25_STATUS_OK E \<longrightarrow>
      bsp_dut_boot n E cal_boot s = (Some r0, s\<lparr>world := w0, calls := calls s @ [Ev_boot None r0]\<rparr>)"
    unfolding U by simp
  ultimately show ?thesis by (simp add: b0)
qed

theorem bsp_dut_boot_null_boot_first_demo:
  "fst (cs40l25_boot demo_env_boot_fail None (world demo_booted)) \<noteq>
     CS40L25_STATUS_OK demo_env_boot_fail \<and>
   bsp_dut_boot 0 demo_env_boot_fail False demo_booted =
     (Some 1, demo_booted\<lparr>calls := [Ev_boot None 1]\<rparr>)"
  using bsp_dut_boot_null_boot_first [of demo_booted 0 demo_env_boot_fail False]
  by (simp add: demo_defs)

subsection \<open>Header decode, then allocations, then block writes\<close>

lemma decode_alloc_write_order_frees:
  "decode_alloc_write_order h k (map Ev_free ps @ es) = decode_alloc_write_order h k es"
  by (induction ps) simp_all

text \<open>
  Claim C2.  In every execution of \<^verbatim>\<open>bsp_dut_boot\<close>, whatever the fuel, the calls it makes
  are ordered: every call of \<^verbatim>\<open>bsp_malloc\<close> comes after a call of
  \<^verbatim>\<open>fw_img_read_header\<close> that returned 0, and every call of \<^verbatim>\<open>cs40l25_write_block\<close>
  comes after three calls of \<^verbatim>\<open>bsp_malloc\<close> that returned a non-\<^verbatim>\<open>NULL\<close> pointer.
\<close>

theorem bsp_dut_boot_decode_alloc_write_order:
  fixes E :: "('p::zero, 'w) env"
  shows "decode_alloc_write_order False 0 (new_calls s (snd (bsp_dut_boot n E cal_boot s)))"
proof -
  define fw_img where "fw_img = (if \<not> cal_boot then cs40l25_fw_img E else cs40l25_cal_fw_img E)"
  define fw_img_end where
    "fw_img_end = (if \<not> cal_boot then cs40l25_fw_img E + cs40l25_fw_img_size E
                   else cs40l25_cal_fw_img E + cs40l25_cal_fw_img_size E)"
  obtain r0 w0 where b0: "cs40l25_boot E None (world s) = (r0, w0)"
    by (metis prod.exhaust)
  obtain rh bsh wh where hd: "fw_img_read_header E (first_chunk fw_img)
      (fold (bsp_free E) (held_buffers (boot_state s)) w0) = ((rh, bsh), wh)"
    by (metis prod.exhaust)
  obtain sz1 sz2 sz3 where sz: "buffer_sizes E bsh = [sz1, sz2, sz3]"
    by (simp add: buffer_sizes_def)
  obtain p1 w1 where m1: "bsp_malloc E sz1 wh = (p1, w1)" by (metis prod.exhaust)
  obtain p2 w2 where m2: "bsp_malloc E sz2 w1 = (p2, w2)" by (metis prod.exhaust)
  obtain p3 w3 where m3: "bsp_malloc E sz3 w2 = (p3, w3)" by (metis prod.exhaust)
  note C = bsp_dut_boot_calls [OF fw_img_def fw_img_end_def b0 hd sz m1 m2 m3 refl refl]
  show ?thesis
    unfolding C
    by (simp add: decode_alloc_write_order_frees
          decode_alloc_write_order_loop [where k = "Suc (Suc (Suc 0))", simplified])
qed

theorem bsp_dut_boot_decode_alloc_write_order_demo:
  "malloc_calls (new_calls demo_start (snd (bsp_dut_boot (Suc (Suc (Suc (Suc 0)))) demo_env False demo_start))) =
     [(16, 0x410), (4, 0x404), (32, 0x420)] \<and>
   decode_alloc_write_order False 0
     (new_calls demo_start (snd (bsp_dut_boot (Suc (Suc (Suc (Suc 0)))) demo_env False demo_start)))"
proof
  show "malloc_calls (new_calls demo_start (snd (bsp_dut_boot (Suc (Suc (Suc (Suc 0)))) demo_env False demo_start))) =
     [(16, 0x410), (4, 0x404), (32, 0x420)]"
    by (simp add: run_defs demo_defs)
  show "decode_alloc_write_order False 0
     (new_calls demo_start (snd (bsp_dut_boot (Suc (Suc (Suc (Suc 0)))) demo_env False demo_start)))"
    by (rule bsp_dut_boot_decode_alloc_write_order)
qed

subsection \<open>Sizes of the buffers\<close>

lemma boot_loop_no_header:
  "(\<forall>bs0 r bs. Ev_read_header bs0 r bs \<notin> set (new_calls s (snd (boot_loop n E e f ws s)))) \<and>
   malloc_calls (new_calls s (snd (boot_loop n E e f ws s))) = []"
proof (induction n arbitrary: f ws s)
  case 0
  show ?case by (simp add: new_calls_def)
next
  case (Suc n)
  obtain st bo w1 where pr: "fw_img_process E (boot_state s) (world s) = ((st, bo), w1)"
    by (metis prod.exhaust)
  obtain wr w2 where wr: "cs40l25_write_block E (block_addr (block bo)) (block_data bo)
                 (block_size (block bo)) w1 = (wr, w2)"
    by (metis prod.exhaust)
  obtain rc wc where cm: "cs40l25_boot E (Some (fw_info (boot_state s))) (world s) = (rc, wc)"
    by (metis prod.exhaust)
  note N = new_calls_boot_loop_unfold [OF pr wr refl refl]
  note L = boot_loop_Suc_unfold [OF pr wr cm refl refl]

  show ?case
    unfolding N by (simp add: Suc.IH)
qed

lemma malloc_calls_free_prefix: "malloc_calls (map Ev_free ps @ es) = malloc_calls es"
  by (induction ps) simp_all

lemma malloc_calls_map_free: "malloc_calls (map Ev_free ps) = []"
  by (induction ps) simp_all

lemma malloc_calls_append: "malloc_calls (xs @ ys) = malloc_calls xs @ malloc_calls ys"
  by (induction xs rule: malloc_calls.induct) simp_all

text \<open>
  The sizes \<^verbatim>\<open>bsp_dut_boot\<close> asks for.  In every run that allocates at all, the header
  decode returned 0 and left a boot state \<open>bs\<close>, and the sizes passed to \<^verbatim>\<open>bsp_malloc\<close>
  are, in order and as far as the run gets, \<open>sym_table_size\<close> times the size of a
  symbol-table entry, \<open>alg_id_list_size\<close> times 4, and for the block buffer 4140 when
  \<open>img_format_rev\<close> is 1 and \<open>max_block_size\<close> otherwise, all read from \<open>bs\<close>; when no
  allocation returns \<^verbatim>\<open>NULL\<close> all three are made.  The products are those of
  \<^verbatim>\<open>uint32_t\<close> arithmetic: they are taken modulo \<open>2 ^ 32\<close>.
\<close>

lemma bsp_dut_boot_requested_sizes:
  fixes E :: "('p::zero, 'w) env"
  shows "malloc_calls (new_calls s (snd (bsp_dut_boot n E cal_boot s))) = [] \<or>
         (\<exists>bs0 bs.
            Ev_read_header bs0 0 bs \<in> set (new_calls s (snd (bsp_dut_boot n E cal_boot s))) \<and>
            prefix (map fst (malloc_calls (new_calls s (snd (bsp_dut_boot n E cal_boot s)))))
              [sym_table_size (header (fw_info bs)) * sizeof_sym_table_t E,
               alg_id_list_size (header (fw_info bs)) * 4,
               if img_format_rev (preheader (fw_info bs)) = 1 then 4140
               else max_block_size (header (fw_info bs))] \<and>
            ((\<forall>c \<in> set (malloc_calls (new_calls s (snd (bsp_dut_boot n E cal_boot s)))). snd c \<noteq> 0) \<longrightarrow>
               map fst (malloc_calls (new_calls s (snd (bsp_dut_boot n E cal_boot s)))) =
                 [sym_table_size (header (fw_info bs)) * sizeof_sym_table_t E,
                  alg_id_list_size (header (fw_info bs)) * 4,
                  if img_format_rev (preheader (fw_info bs)) = 1 then 4140
                  else max_block_size (header (fw_info bs))]))"
proof -
  define fw_img where "fw_img = (if \<not> cal_boot then cs40l25_fw_img E else cs40l25_cal_fw_img E)"
  define fw_img_end where
    "fw_img_end = (if \<not> cal_boot then cs40l25_fw_img E + cs40l25_fw_img_size E
                   else cs40l25_cal_fw_img E + cs40l25_cal_fw_img_size E)"
  obtain r0 w0 where b0: "cs40l25_boot E None (world s) = (r0, w0)"
    by (metis prod.exhaust)
  obtain rh bsh wh where hd: "fw_img_read_header E (first_chunk fw_img)
      (fold (bsp_free E) (held_buffers (boot_state s)) w0) = ((rh, bsh), wh)"
    by (metis prod.exhaust)
  obtain sz1 sz2 sz3 where sz: "buffer_sizes E bsh = [sz1, sz2, sz3]"
    by (simp add: buffer_sizes_def)
  obtain p1 w1 where m1: "bsp_malloc E sz1 wh = (p1, w1)" by (metis prod.exhaust)
  obtain p2 w2 where m2: "bsp_malloc E sz2 w1 = (p2, w2)" by (metis prod.exhaust)
  obtain p3 w3 where m3: "bsp_malloc E sz3 w2 = (p3, w3)" by (metis prod.exhaust)
  define pre where "pre = Ev_boot None r0 # map Ev_free (held_buffers (boot_state s)) @
                        [Ev_memset, Ev_read_header (first_chunk fw_img) rh bsh]"
  define sL where "sL = s\<lparr>world := w3,
               calls := calls s @ pre @ [Ev_malloc sz1 p1, Ev_malloc sz2 p2, Ev_malloc sz3 p3],
               boot_state := (with_buffers p1 p2 bsh)\<lparr>block_data_size := sz3, block_data := p3\<rparr>\<rparr>"
  note U = bsp_dut_boot_unfold [OF fw_img_def fw_img_end_def b0 hd sz m1 m2 m3 pre_def,
      folded sL_def]
  note S = bsp_dut_boot_status [OF fw_img_def fw_img_end_def b0 hd sz m1 m2 m3 pre_def sL_def]
  note C = bsp_dut_boot_calls [OF fw_img_def fw_img_end_def b0 hd sz m1 m2 m3 pre_def sL_def]

  let ?lp = "new_calls sL (snd (boot_loop n E fw_img_end fw_img 1024 sL))"
  have lpm: "malloc_calls ?lp = []"
    using boot_loop_no_header [of sL n E fw_img_end fw_img 1024] by simp
  show ?thesis
  proof (cases "r0 = CS40L25_STATUS_OK E \<and> rh = 0")
    case False
    then show ?thesis
      unfolding C by (auto simp: pre_def malloc_calls_free_prefix malloc_calls_append malloc_calls_map_free)
  next
    case True
    have P1: "Ev_read_header (first_chunk fw_img) 0 bsh \<in> set (new_calls s (snd (bsp_dut_boot n E cal_boot s)))"
      using True unfolding C by (simp add: pre_def)
    have P2: "prefix (map fst (malloc_calls (new_calls s (snd (bsp_dut_boot n E cal_boot s)))))
        (buffer_sizes E bsh)"
      using True unfolding C sz
      by (simp add: pre_def malloc_calls_free_prefix malloc_calls_append malloc_calls_map_free lpm)
    have P3: "(\<forall>c \<in> set (malloc_calls (new_calls s (snd (bsp_dut_boot n E cal_boot s)))). snd c \<noteq> 0) \<longrightarrow>
        map fst (malloc_calls (new_calls s (snd (bsp_dut_boot n E cal_boot s)))) = buffer_sizes E bsh"
      using True unfolding C sz
      by (simp add: pre_def malloc_calls_free_prefix malloc_calls_append malloc_calls_map_free lpm)
    show ?thesis
      by (rule disjI2, rule exI, rule exI, intro conjI, rule P1,
          rule P2 [unfolded buffer_sizes_def], rule P3 [unfolded buffer_sizes_def])
  qed
qed

text \<open>
  As long as the products fit in 32 bits, the sizes asked for are those of
  \<open>sym_table_size\<close> symbol-table entries and of \<open>alg_id_list_size\<close> algorithm IDs.
\<close>

lemma buffer_sizes_fit:
  assumes a: "unat (sym_table_size (header (fw_info bs))) * unat (sizeof_sym_table_t E) < 2 ^ 32"
      and b: "unat (alg_id_list_size (header (fw_info bs))) * 4 < 2 ^ 32"
  shows "map unat (buffer_sizes E bs) =
           [unat (sym_table_size (header (fw_info bs))) * unat (sizeof_sym_table_t E),
            unat (alg_id_list_size (header (fw_info bs))) * 4,
            if img_format_rev (preheader (fw_info bs)) = 1 then 4140
            else unat (max_block_size (header (fw_info bs)))]"
proof -
  from a have "unat (sym_table_size (header (fw_info bs))) * unat (sizeof_sym_table_t E) <
      2 ^ LENGTH(32)" by simp
  then have 1: "unat (sym_table_size (header (fw_info bs)) * sizeof_sym_table_t E) =
      unat (sym_table_size (header (fw_info bs))) * unat (sizeof_sym_table_t E)"
    by (simp only: unat_mult_lem [THEN iffD1])
  from b have "unat (alg_id_list_size (header (fw_info bs))) * unat (4 :: u32) < 2 ^ LENGTH(32)"
    by simp
  then have "unat (alg_id_list_size (header (fw_info bs)) * 4) =
      unat (alg_id_list_size (header (fw_info bs))) * unat (4 :: u32)"
    by (simp only: unat_mult_lem [THEN iffD1])
  then have 2: "unat (alg_id_list_size (header (fw_info bs)) * 4) =
      unat (alg_id_list_size (header (fw_info bs))) * 4"
    by simp
  show ?thesis
    by (simp add: buffer_sizes_def 1 2)
qed

text \<open>
  Claim C3 fails on the code when a product overflows.  The source computes
  \<^verbatim>\<open>sym_table_size * sizeof(fw_img_v1_sym_table_t)\<close> and
  \<^verbatim>\<open>alg_id_list_size * sizeof(uint32_t)\<close> in \<^verbatim>\<open>uint32_t\<close> and checks neither, under the
  comments \<^verbatim>\<open>malloc enough memory to hold the symbol table\<close> and
  \<^verbatim>\<open>malloc enough memory to hold the alg_id list\<close>.  On the concrete platform with
  eight-byte entries and a header that announces \<open>0x20000001\<close> symbols and \<open>0x40000001\<close>
  algorithm IDs, the header decode succeeds, \<^verbatim>\<open>bsp_malloc\<close> is asked for 8 bytes (one
  symbol) and 4 bytes (one ID), the allocations succeed and the boot runs to the commit
  and returns \<^verbatim>\<open>BSP_STATUS_OK\<close>, with the announced sizes still in the firmware
  descriptor.  The block buffer is sized as the claim says (\<open>max_block_size\<close>, 32 bytes,
  the format revision being 2).
\<close>

theorem bsp_dut_boot_buffer_sizes_overflow:
  "sizeof_sym_table_t demo_env_huge = 8 \<and>
   fst (fst (fw_img_read_header demo_env_huge (first_chunk 0x1000) 0)) = 0 \<and>
   fst (bsp_dut_boot (Suc (Suc (Suc (Suc 0)))) demo_env_huge False demo_start) = Some BSP_STATUS_OK \<and>
   sym_table_size (header (fw_info (boot_state
      (snd (bsp_dut_boot (Suc (Suc (Suc (Suc 0)))) demo_env_huge False demo_start))))) = 0x20000001 \<and>
   alg_id_list_size (header (fw_info (boot_state
      (snd (bsp_dut_boot (Suc (Suc (Suc (Suc 0)))) demo_env_huge False demo_start))))) = 0x40000001 \<and>
   max_block_size (header (fw_info (boot_state
      (snd (bsp_dut_boot (Suc (Suc (Suc (Suc 0)))) demo_env_huge False demo_start))))) = 32 \<and>
   img_format_rev (preheader (fw_info (boot_state
      (snd (bsp_dut_boot (Suc (Suc (Suc (Suc 0)))) demo_env_huge False demo_start))))) = 2 \<and>
   malloc_calls (new_calls demo_start
      (snd (bsp_dut_boot (Suc (Suc (Suc (Suc 0)))) demo_env_huge False demo_start))) =
     [(8, 0x408), (4, 0x404), (32, 0x420)] \<and>
   commit_results (new_calls demo_start
      (snd (bsp_dut_boot (Suc (Suc (Suc (Suc 0)))) demo_env_huge False demo_start))) =
     [CS40L25_STATUS_OK demo_env_huge] \<and>
   unat (8 :: u32) < unat (0x20000001 :: u32) * unat (sizeof_sym_table_t demo_env_huge) \<and>
   unat (4 :: u32) < unat (0x40000001 :: u32) * 4"
  by (simp add: run_defs demo_defs BSP_STATUS_OK_def)

subsection \<open>Errors end the boot attempt\<close>

lemma boot_loop_error_last:
  assumes d: "FW_IMG_STATUS_DATA_READY E \<noteq> FW_IMG_STATUS_FAIL E"
  shows "x \<in> set (new_calls s (snd (boot_loop n E e f ws s))) \<Longrightarrow> is_error_event E x \<Longrightarrow>
         fst (boot_loop n E e f ws s) = Some BSP_STATUS_FAIL \<and>
         last (new_calls s (snd (boot_loop n E e f ws s))) = x \<and>
         (\<forall>y \<in> set (butlast (new_calls s (snd (boot_loop n E e f ws s)))).
            \<not> is_error_event E y \<and> \<not> is_commit y)"
proof (induction n arbitrary: f ws s)
  case 0
  then show ?case by (simp add: new_calls_def)
next
  case (Suc n)
  obtain st bo w1 where pr: "fw_img_process E (boot_state s) (world s) = ((st, bo), w1)"
    by (metis prod.exhaust)
  obtain wr w2 where wr: "cs40l25_write_block E (block_addr (block bo)) (block_data bo)
                 (block_size (block bo)) w1 = (wr, w2)"
    by (metis prod.exhaust)
  obtain rc wc where cm: "cs40l25_boot E (Some (fw_info (boot_state s))) (world s) = (rc, wc)"
    by (metis prod.exhaust)
  note N = new_calls_boot_loop_unfold [OF pr wr refl refl]
  note L = boot_loop_Suc_unfold [OF pr wr cm refl refl]
  from Suc.prems d show ?case
    apply (unfold N)
    apply (unfold L)
    apply (auto simp: cm dest: Suc.IH split: if_splits)
    done
qed

text \<open>
  Claim C4.  Every error is terminal.  Whenever a run of \<^verbatim>\<open>bsp_dut_boot\<close> makes a call
  that fails (a header decode with a non-zero status, an allocation returning \<^verbatim>\<open>NULL\<close>,
  a block write returning \<^verbatim>\<open>CS40L25_STATUS_FAIL\<close>, a parser step returning
  \<^verbatim>\<open>FW_IMG_STATUS_FAIL\<close>), the function returns \<^verbatim>\<open>BSP_STATUS_FAIL\<close>, the failed call
  is the last call it makes (nothing is retried), no failed call precedes it, and
  \<^verbatim>\<open>cs40l25_boot\<close> is never called with the firmware descriptor.  The two parser status
  codes compared first in the loop are taken to be different.
\<close>

theorem bsp_dut_boot_error_terminal:
  fixes E :: "('p::zero, 'w) env"
  assumes d: "FW_IMG_STATUS_DATA_READY E \<noteq> FW_IMG_STATUS_FAIL E"
      and x: "x \<in> set (new_calls s (snd (bsp_dut_boot n E cal_boot s)))"
      and e: "is_error_event E x"
  shows "fst (bsp_dut_boot n E cal_boot s) = Some BSP_STATUS_FAIL \<and>
         (\<exists>pre. new_calls s (snd (bsp_dut_boot n E cal_boot s)) = pre @ [x] \<and>
                (\<forall>y \<in> set pre. \<not> is_error_event E y \<and> \<not> is_commit y)) \<and>
         \<not> is_commit x"
proof -
  define fw_img where "fw_img = (if \<not> cal_boot then cs40l25_fw_img E else cs40l25_cal_fw_img E)"
  define fw_img_end where
    "fw_img_end = (if \<not> cal_boot then cs40l25_fw_img E + cs40l25_fw_img_size E
                   else cs40l25_cal_fw_img E + cs40l25_cal_fw_img_size E)"
  obtain r0 w0 where b0: "cs40l25_boot E None (world s) = (r0, w0)"
    by (metis prod.exhaust)
  obtain rh bsh wh where hd: "fw_img_read_header E (first_chunk fw_img)
      (fold (bsp_free E) (held_buffers (boot_state s)) w0) = ((rh, bsh), wh)"
    by (metis prod.exhaust)
  obtain sz1 sz2 sz3 where sz: "buffer_sizes E bsh = [sz1, sz2, sz3]"
    by (simp add: buffer_sizes_def)
  obtain p1 w1 where m1: "bsp_malloc E sz1 wh = (p1, w1)" by (metis prod.exhaust)
  obtain p2 w2 where m2: "bsp_malloc E sz2 w1 = (p2, w2)" by (metis prod.exhaust)
  obtain p3 w3 where m3: "bsp_malloc E sz3 w2 = (p3, w3)" by (metis prod.exhaust)
  define pre where "pre = Ev_boot None r0 # map Ev_free (held_buffers (boot_state s)) @
                        [Ev_memset, Ev_read_header (first_chunk fw_img) rh bsh]"
  define sL where "sL = s\<lparr>world := w3,
               calls := calls s @ pre @ [Ev_malloc sz1 p1, Ev_malloc sz2 p2, Ev_malloc sz3 p3],
               boot_state := (with_buffers p1 p2 bsh)\<lparr>block_data_size := sz3, block_data := p3\<rparr>\<rparr>"
  note U = bsp_dut_boot_unfold [OF fw_img_def fw_img_end_def b0 hd sz m1 m2 m3 pre_def,
      folded sL_def]
  note S = bsp_dut_boot_status [OF fw_img_def fw_img_end_def b0 hd sz m1 m2 m3 pre_def sL_def]
  note C = bsp_dut_boot_calls [OF fw_img_def fw_img_end_def b0 hd sz m1 m2 m3 pre_def sL_def]

  let ?tr = "new_calls s (snd (bsp_dut_boot n E cal_boot s))"
  have main: "fst (bsp_dut_boot n E cal_boot s) = Some BSP_STATUS_FAIL \<and> last ?tr = x \<and>
      (\<forall>y \<in> set (butlast ?tr). \<not> is_error_event E y \<and> \<not> is_commit y)"
  proof (cases "r0 = CS40L25_STATUS_OK E \<and> rh = 0 \<and> p1 \<noteq> 0 \<and> p2 \<noteq> 0 \<and> p3 \<noteq> 0")
    case True
    let ?lp = "new_calls sL (snd (boot_loop n E fw_img_end fw_img 1024 sL))"
    from True x e have xl: "x \<in> set ?lp"
      unfolding C by (auto simp: pre_def)
    note IH = boot_loop_error_last [OF d xl e]
    from xl have ne: "?lp \<noteq> []" by auto
    from True IH ne show ?thesis
      unfolding C S by (auto simp: pre_def butlast_append)
  next
    case False
    with x e show ?thesis
      unfolding C S by (auto simp: pre_def butlast_append split: if_splits)
  qed
  from x have "?tr \<noteq> []" by auto
  then have "?tr = butlast ?tr @ [last ?tr]" by simp
  with main have "?tr = butlast ?tr @ [x]" by simp
  with main e show ?thesis
    by (cases x) (auto intro!: exI [of _ "butlast ?tr"])
qed

theorem bsp_dut_boot_error_terminal_demo:
  "FW_IMG_STATUS_DATA_READY demo_env_write_fail \<noteq> FW_IMG_STATUS_FAIL demo_env_write_fail \<and>
   Ev_write_block 0x2000 0x420 8 1 \<in>
     set (new_calls demo_start (snd (bsp_dut_boot (Suc 0) demo_env_write_fail False demo_start))) \<and>
   is_error_event demo_env_write_fail (Ev_write_block 0x2000 0x420 8 1) \<and>
   fst (bsp_dut_boot (Suc 0) demo_env_write_fail False demo_start) = Some BSP_STATUS_FAIL \<and>
   (\<exists>pre. new_calls demo_start (snd (bsp_dut_boot (Suc 0) demo_env_write_fail False demo_start)) =
            pre @ [Ev_write_block 0x2000 0x420 8 1] \<and>
          (\<forall>y \<in> set pre. \<not> is_error_event demo_env_write_fail y \<and> \<not> is_commit y))"
proof -
  have h1: "FW_IMG_STATUS_DATA_READY demo_env_write_fail \<noteq> FW_IMG_STATUS_FAIL demo_env_write_fail"
    by (simp add: demo_defs)
  have h2: "Ev_write_block 0x2000 0x420 8 1 \<in>
     set (new_calls demo_start (snd (bsp_dut_boot (Suc 0) demo_env_write_fail False demo_start)))"
    by (simp add: run_defs demo_defs)
  have h3: "is_error_event demo_env_write_fail (Ev_write_block 0x2000 0x420 8 1)"
    by (simp add: demo_defs)
  from bsp_dut_boot_error_terminal [OF h1 h2 h3] h1 h2 h3 show ?thesis
    by blast
qed

subsection \<open>Forwarding decoded blocks\<close>

lemma boot_loop_starts_with_process:
  assumes c: "f < e"
  shows "case new_calls s (snd (boot_loop n E e f ws s)) of
           [] \<Rightarrow> fst (boot_loop n E e f ws s) = None
         | Ev_process bi st bo # es \<Rightarrow> bi = boot_state s
         | _ \<Rightarrow> False"
proof (cases n)
  case 0
  then show ?thesis by (simp add: new_calls_def)
next
  case (Suc n)
  obtain st bo w1 where pr: "fw_img_process E (boot_state s) (world s) = ((st, bo), w1)"
    by (metis prod.exhaust)
  obtain wr w2 where wr: "cs40l25_write_block E (block_addr (block bo)) (block_data bo)
                 (block_size (block bo)) w1 = (wr, w2)"
    by (metis prod.exhaust)
  obtain rc wc where cm: "cs40l25_boot E (Some (fw_info (boot_state s))) (world s) = (rc, wc)"
    by (metis prod.exhaust)
  note N = new_calls_boot_loop_unfold [OF pr wr refl refl]
  note L = boot_loop_Suc_unfold [OF pr wr cm refl refl]

  from c show ?thesis
    unfolding Suc N by simp
qed

lemma block_forwarding_loop:
  "block_forwarding E (fst (boot_loop n E e f ws s)) (new_calls s (snd (boot_loop n E e f ws s)))"
proof (induction n arbitrary: f ws s)
  case 0
  show ?case by (simp add: new_calls_def)
next
  case (Suc n)
  obtain st bo w1 where pr: "fw_img_process E (boot_state s) (world s) = ((st, bo), w1)"
    by (metis prod.exhaust)
  obtain wr w2 where wr: "cs40l25_write_block E (block_addr (block bo)) (block_data bo)
                 (block_size (block bo)) w1 = (wr, w2)"
    by (metis prod.exhaust)
  obtain rc wc where cm: "cs40l25_boot E (Some (fw_info (boot_state s))) (world s) = (rc, wc)"
    by (metis prod.exhaust)
  note N = new_calls_boot_loop_unfold [OF pr wr refl refl]
  note L = boot_loop_Suc_unfold [OF pr wr cm refl refl]

  show ?case
  proof (cases "f < e \<and> st = FW_IMG_STATUS_DATA_READY E \<and> wr \<noteq> CS40L25_STATUS_FAIL E")
    case True
    define s2 where "s2 = s\<lparr>boot_state := bo, world := w2,
      calls := calls s @ [Ev_process (boot_state s) st bo,
        Ev_write_block (block_addr (block bo)) (block_data bo) (block_size (block bo)) wr]\<rparr>"
    from True have c: "f < e" by simp
    note st = boot_loop_starts_with_process [OF c, where s = s2 and n = n and E = E and ws = ws]
    have bs: "boot_state s2 = bo" by (simp add: s2_def)
    from True have N': "new_calls s (snd (boot_loop (Suc n) E e f ws s)) =
        Ev_process (boot_state s) st bo #
        Ev_write_block (block_addr (block bo)) (block_data bo) (block_size (block bo)) wr #
        new_calls s2 (snd (boot_loop n E e f ws s2))"
      unfolding N s2_def by simp
    from True have L': "boot_loop (Suc n) E e f ws s = boot_loop n E e f ws s2"
      unfolding L s2_def by simp
    from st [unfolded bs] Suc.IH [of f ws s2] True show ?thesis
      apply (unfold N')
      apply (unfold L')
      apply simp
      done
  next
    case False
    then show ?thesis
      apply (unfold N)
      apply (unfold L)
      apply (auto simp: Suc.IH)
      done
  qed
qed

lemma block_forwarding_frees:
  "block_forwarding E r (map Ev_free ps @ es) = block_forwarding E r es"
  by (induction ps) simp_all

lemma block_forwarding_at:
  "block_forwarding E r (pre @ Ev_process bi (FW_IMG_STATUS_DATA_READY E) bo # post) \<Longrightarrow>
   \<exists>wr post'.
      post = Ev_write_block (block_addr (block bo)) (block_data bo) (block_size (block bo)) wr # post' \<and>
      (if wr = CS40L25_STATUS_FAIL E then post' = [] \<and> r = Some BSP_STATUS_FAIL
       else (post' = [] \<and> r = None) \<or> (\<exists>st' bo' post''. post' = Ev_process bo st' bo' # post''))"
proof (induction pre)
  case Nil
  then have w: "case post of
      Ev_write_block a d l wr # es' \<Rightarrow>
        a = block_addr (block bo) \<and> d = block_data bo \<and> l = block_size (block bo) \<and>
        (if wr = CS40L25_STATUS_FAIL E then es' = [] \<and> r = Some BSP_STATUS_FAIL
         else (case es' of
                 [] \<Rightarrow> r = None
               | Ev_process bi' st' bo' # es'' \<Rightarrow> bi' = bo
               | _ \<Rightarrow> False))
    | _ \<Rightarrow> False"
    by simp
  show ?case
  proof (cases post)
    case Nil
    with w show ?thesis by simp
  next
    case post: (Cons y ys)
    show ?thesis
    proof (cases y)
      case y: (Ev_write_block a d l wr)
      from w post y have 1: "a = block_addr (block bo)" "d = block_data bo" "l = block_size (block bo)"
        and 2: "if wr = CS40L25_STATUS_FAIL E then ys = [] \<and> r = Some BSP_STATUS_FAIL
                else (case ys of
                        [] \<Rightarrow> r = None
                      | Ev_process bi' st' bo' # es'' \<Rightarrow> bi' = bo
                      | _ \<Rightarrow> False)"
        by simp_all
      show ?thesis
      proof (cases "wr = CS40L25_STATUS_FAIL E")
        case True
        with 1 2 post y show ?thesis by simp
      next
        case False
        with 2 have 3: "case ys of
                        [] \<Rightarrow> r = None
                      | Ev_process bi' st' bo' # es'' \<Rightarrow> bi' = bo
                      | _ \<Rightarrow> False"
          by simp
        show ?thesis
        proof (cases ys)
          case Nil
          with 1 3 False post y show ?thesis by simp
        next
          case ys: (Cons z zs)
          with 3 obtain st' bo' where "z = Ev_process bo st' bo'"
            by (cases z) simp_all
          with 1 False post y ys show ?thesis by simp
        qed
      qed
    qed (use w post in simp_all)
  qed
next
  case (Cons x pre)
  then show ?case
    by (cases x) simp_all
qed

text \<open>
  The shape of the log around a parser step that reported a block, and what a pass through
  the loop body hands on.
\<close>

lemma bsp_dut_boot_block_forwarding_log:
  fixes E :: "('p::zero, 'w) env"
  shows "(new_calls s (snd (bsp_dut_boot n E cal_boot s)) =
            pre @ Ev_process bi (FW_IMG_STATUS_DATA_READY E) bo # post \<longrightarrow>
          (\<exists>wr post'.
             post = Ev_write_block (block_addr (block bo)) (block_data bo) (block_size (block bo)) wr #
                    post' \<and>
             (if wr = CS40L25_STATUS_FAIL E
              then post' = [] \<and> fst (bsp_dut_boot n E cal_boot s) = Some BSP_STATUS_FAIL
              else (post' = [] \<and> fst (bsp_dut_boot n E cal_boot s) = None) \<or>
                   (\<exists>st' bo' post''. post' = Ev_process bo st' bo' # post'')))) \<and>
         (\<forall>fw_img_end fw_img write_size s1 fw_img' write_size' s2.
            fst (fst (fw_img_process E (boot_state s1) (world s1))) = FW_IMG_STATUS_DATA_READY E \<and>
            boot_loop_body E fw_img_end fw_img write_size s1 = Inr (fw_img', write_size', s2) \<longrightarrow>
            fw_img' = fw_img \<and> write_size' = write_size \<and>
            boot_state s2 = snd (fst (fw_img_process E (boot_state s1) (world s1))))"
proof -
  define fw_img where "fw_img = (if \<not> cal_boot then cs40l25_fw_img E else cs40l25_cal_fw_img E)"
  define fw_img_end where
    "fw_img_end = (if \<not> cal_boot then cs40l25_fw_img E + cs40l25_fw_img_size E
                   else cs40l25_cal_fw_img E + cs40l25_cal_fw_img_size E)"
  obtain r0 w0 where b0: "cs40l25_boot E None (world s) = (r0, w0)"
    by (metis prod.exhaust)
  obtain rh bsh wh where hd: "fw_img_read_header E (first_chunk fw_img)
      (fold (bsp_free E) (held_buffers (boot_state s)) w0) = ((rh, bsh), wh)"
    by (metis prod.exhaust)
  obtain sz1 sz2 sz3 where sz: "buffer_sizes E bsh = [sz1, sz2, sz3]"
    by (simp add: buffer_sizes_def)
  obtain p1 w1 where m1: "bsp_malloc E sz1 wh = (p1, w1)" by (metis prod.exhaust)
  obtain p2 w2 where m2: "bsp_malloc E sz2 w1 = (p2, w2)" by (metis prod.exhaust)
  obtain p3 w3 where m3: "bsp_malloc E sz3 w2 = (p3, w3)" by (metis prod.exhaust)
  define pre where "pre = Ev_boot None r0 # map Ev_free (held_buffers (boot_state s)) @
                        [Ev_memset, Ev_read_header (first_chunk fw_img) rh bsh]"
  define sL where "sL = s\<lparr>world := w3,
               calls := calls s @ pre @ [Ev_malloc sz1 p1, Ev_malloc sz2 p2, Ev_malloc sz3 p3],
               boot_state := (with_buffers p1 p2 bsh)\<lparr>block_data_size := sz3, block_data := p3\<rparr>\<rparr>"
  note U = bsp_dut_boot_unfold [OF fw_img_def fw_img_end_def b0 hd sz m1 m2 m3 pre_def,
      folded sL_def]
  note S = bsp_dut_boot_status [OF fw_img_def fw_img_end_def b0 hd sz m1 m2 m3 pre_def sL_def]
  note C = bsp_dut_boot_calls [OF fw_img_def fw_img_end_def b0 hd sz m1 m2 m3 pre_def sL_def]

  have F: "block_forwarding E (fst (bsp_dut_boot n E cal_boot s))
             (new_calls s (snd (bsp_dut_boot n E cal_boot s)))"
    unfolding C S
    using block_forwarding_loop [of E n fw_img_end fw_img 1024 sL]
    by (simp add: pre_def block_forwarding_frees)
  have A: "new_calls s (snd (bsp_dut_boot n E cal_boot s)) =
            pre @ Ev_process bi (FW_IMG_STATUS_DATA_READY E) bo # post \<longrightarrow>
          (\<exists>wr post'.
             post = Ev_write_block (block_addr (block bo)) (block_data bo) (block_size (block bo)) wr #
                    post' \<and>
             (if wr = CS40L25_STATUS_FAIL E
              then post' = [] \<and> fst (bsp_dut_boot n E cal_boot s) = Some BSP_STATUS_FAIL
              else (post' = [] \<and> fst (bsp_dut_boot n E cal_boot s) = None) \<or>
                   (\<exists>st' bo' post''. post' = Ev_process bo st' bo' # post'')))" for pre bi bo post
  proof
    assume eq: "new_calls s (snd (bsp_dut_boot n E cal_boot s)) =
            pre @ Ev_process bi (FW_IMG_STATUS_DATA_READY E) bo # post"
    from F have "block_forwarding E (fst (bsp_dut_boot n E cal_boot s))
        (pre @ Ev_process bi (FW_IMG_STATUS_DATA_READY E) bo # post)"
      unfolding eq .
    then show "\<exists>wr post'.
             post = Ev_write_block (block_addr (block bo)) (block_data bo) (block_size (block bo)) wr #
                    post' \<and>
             (if wr = CS40L25_STATUS_FAIL E
              then post' = [] \<and> fst (bsp_dut_boot n E cal_boot s) = Some BSP_STATUS_FAIL
              else (post' = [] \<and> fst (bsp_dut_boot n E cal_boot s) = None) \<or>
                   (\<exists>st' bo' post''. post' = Ev_process bo st' bo' # post''))"
      by (rule block_forwarding_at)
  qed
  have B: "fw_img' = fw_img \<and> write_size' = write_size \<and>
            boot_state s2 = snd (fst (fw_img_process E (boot_state s1) (world s1)))"
    if "fst (fst (fw_img_process E (boot_state s1) (world s1))) = FW_IMG_STATUS_DATA_READY E"
      and "boot_loop_body E fw_img_end fw_img write_size s1 = Inr (fw_img', write_size', s2)"
    for fw_img_end fw_img write_size s1 fw_img' write_size' s2
  proof -
    obtain st bo w1 where pr: "fw_img_process E (boot_state s1) (world s1) = ((st, bo), w1)"
      by (metis prod.exhaust)
    obtain wr w2 where wr: "cs40l25_write_block E (block_addr (block bo)) (block_data bo)
                 (block_size (block bo)) w1 = (wr, w2)"
      by (metis prod.exhaust)
    from that show ?thesis
      unfolding boot_loop_body_unfold [OF pr wr refl]
      by (auto simp: pr split: if_splits)
  qed
  from A B show ?thesis by blast
qed

text \<open>
  Claim C5.  In any run of \<^verbatim>\<open>bsp_dut_boot\<close>, take a parser step of the log that returned
  \<^verbatim>\<open>FW_IMG_STATUS_DATA_READY\<close> and left the boot state \<open>bo\<close>.  The calls before it are
  the true answers of their collaborators and lead from the world on entry to a world
  \<open>w0\<close>; the step is the call of \<^verbatim>\<open>fw_img_process\<close> there, which leaves the world \<open>w1\<close>.
  It is followed at once by the call of \<^verbatim>\<open>cs40l25_write_block\<close> in \<open>w1\<close> with the block
  address, the block buffer and the block length of \<open>bo\<close>; \<open>wr\<close> is the status the driver
  returns for it and \<open>w2\<close> the world it leaves.  When \<open>wr\<close> is \<^verbatim>\<open>CS40L25_STATUS_FAIL\<close>
  that write is the last call, the run returns \<^verbatim>\<open>BSP_STATUS_FAIL\<close> and leaves the world
  \<open>w2\<close>; otherwise the next call is the parser again, called in \<open>w2\<close> on the boot state
  \<open>bo\<close> exactly as the parser left it (so with \<open>fw_img_blocks\<close> and
  \<open>fw_img_blocks_size\<close> untouched), unless the fuel ran out.  Moreover a pass through the
  loop body in which the parser reported a block, if it does not return, has called the
  driver with that block in the world the parser left, got a status other than
  \<^verbatim>\<open>CS40L25_STATUS_FAIL\<close>, leaves the world the driver left, and hands the locals
  \<^verbatim>\<open>fw_img\<close> and \<^verbatim>\<open>write_size\<close> on unchanged.
\<close>

theorem bsp_dut_boot_block_forwarding:
  fixes E :: "('p::zero, 'w) env"
  shows "(new_calls s (snd (bsp_dut_boot n E cal_boot s)) =
            pre @ Ev_process bi (FW_IMG_STATUS_DATA_READY E) bo # post \<longrightarrow>
          (\<exists>wr post' w0 w1 w2.
             post = Ev_write_block (block_addr (block bo)) (block_data bo) (block_size (block bo)) wr #
                    post' \<and>
             replay E (world s) pre = Some w0 \<and>
             fw_img_process E bi w0 = ((FW_IMG_STATUS_DATA_READY E, bo), w1) \<and>
             cs40l25_write_block E (block_addr (block bo)) (block_data bo) (block_size (block bo)) w1 =
               (wr, w2) \<and>
             (if wr = CS40L25_STATUS_FAIL E
              then post' = [] \<and> fst (bsp_dut_boot n E cal_boot s) = Some BSP_STATUS_FAIL \<and>
                   world (snd (bsp_dut_boot n E cal_boot s)) = w2
              else (post' = [] \<and> fst (bsp_dut_boot n E cal_boot s) = None \<and>
                    world (snd (bsp_dut_boot n E cal_boot s)) = w2) \<or>
                   (\<exists>st' bo' post''. post' = Ev_process bo st' bo' # post'' \<and>
                      fst (fw_img_process E bo w2) = (st', bo'))))) \<and>
         (\<forall>fw_img_end fw_img write_size s1 fw_img' write_size' s2.
            fst (fst (fw_img_process E (boot_state s1) (world s1))) = FW_IMG_STATUS_DATA_READY E \<and>
            boot_loop_body E fw_img_end fw_img write_size s1 = Inr (fw_img', write_size', s2) \<longrightarrow>
            fw_img' = fw_img \<and> write_size' = write_size \<and>
            boot_state s2 = snd (fst (fw_img_process E (boot_state s1) (world s1))) \<and>
            fst (cs40l25_write_block E (block_addr (block (boot_state s2))) (block_data (boot_state s2))
                   (block_size (block (boot_state s2)))
                   (snd (fw_img_process E (boot_state s1) (world s1)))) \<noteq> CS40L25_STATUS_FAIL E \<and>
            world s2 =
              snd (cs40l25_write_block E (block_addr (block (boot_state s2))) (block_data (boot_state s2))
                     (block_size (block (boot_state s2)))
                     (snd (fw_img_process E (boot_state s1) (world s1)))))"
proof -
  let ?r = "fst (bsp_dut_boot n E cal_boot s)"
  let ?s' = "snd (bsp_dut_boot n E cal_boot s)"
  have A: "\<exists>wr post' w0 w1 w2.
             post = Ev_write_block (block_addr (block bo)) (block_data bo) (block_size (block bo)) wr #
                    post' \<and>
             replay E (world s) pre = Some w0 \<and>
             fw_img_process E bi w0 = ((FW_IMG_STATUS_DATA_READY E, bo), w1) \<and>
             cs40l25_write_block E (block_addr (block bo)) (block_data bo) (block_size (block bo)) w1 =
               (wr, w2) \<and>
             (if wr = CS40L25_STATUS_FAIL E
              then post' = [] \<and> ?r = Some BSP_STATUS_FAIL \<and> world ?s' = w2
              else (post' = [] \<and> ?r = None \<and> world ?s' = w2) \<or>
                   (\<exists>st' bo' post''. post' = Ev_process bo st' bo' # post'' \<and>
                      fst (fw_img_process E bo w2) = (st', bo')))"
    if eq: "new_calls s ?s' = pre @ Ev_process bi (FW_IMG_STATUS_DATA_READY E) bo # post"
  proof -
    from bsp_dut_boot_block_forwarding_log [of s n E cal_boot pre bi bo post] eq
    obtain wr post' where
      post: "post = Ev_write_block (block_addr (block bo)) (block_data bo) (block_size (block bo)) wr #
                    post'"
      and sh: "if wr = CS40L25_STATUS_FAIL E then post' = [] \<and> ?r = Some BSP_STATUS_FAIL
               else (post' = [] \<and> ?r = None) \<or>
                    (\<exists>st' bo' post''. post' = Ev_process bo st' bo' # post'')"
      by blast
    have "replay E (world s)
            (pre @ Ev_process bi (FW_IMG_STATUS_DATA_READY E) bo #
               Ev_write_block (block_addr (block bo)) (block_data bo) (block_size (block bo)) wr #
               post') = Some (world ?s')"
      using bsp_dut_boot_replay [of E s n cal_boot] unfolding eq post .
    then obtain w0 where w0: "replay E (world s) pre = Some w0"
      and r1: "replay E w0 (Ev_process bi (FW_IMG_STATUS_DATA_READY E) bo #
               Ev_write_block (block_addr (block bo)) (block_data bo) (block_size (block bo)) wr #
               post') = Some (world ?s')"
      by (auto simp: replay_append split: option.splits)
    obtain x1 w1 where p1: "fw_img_process E bi w0 = (x1, w1)" by (metis prod.exhaust)
    from r1 p1 have x1: "x1 = (FW_IMG_STATUS_DATA_READY E, bo)"
      and r2: "replay E w1 (Ev_write_block (block_addr (block bo)) (block_data bo)
                 (block_size (block bo)) wr # post') = Some (world ?s')"
      by (simp_all split: if_splits)
    obtain x2 w2 where p2: "cs40l25_write_block E (block_addr (block bo)) (block_data bo)
        (block_size (block bo)) w1 = (x2, w2)"
      by (metis prod.exhaust)
    from r2 p2 have x2: "x2 = wr" and r3: "replay E w2 post' = Some (world ?s')"
      by (simp_all split: if_splits)
    have tl: "if wr = CS40L25_STATUS_FAIL E
              then post' = [] \<and> ?r = Some BSP_STATUS_FAIL \<and> world ?s' = w2
              else (post' = [] \<and> ?r = None \<and> world ?s' = w2) \<or>
                   (\<exists>st' bo' post''. post' = Ev_process bo st' bo' # post'' \<and>
                      fst (fw_img_process E bo w2) = (st', bo'))"
    proof (cases "post' = []")
      case True
      with r3 have "world ?s' = w2" by simp
      with sh True show ?thesis by (simp split: if_splits)
    next
      case False
      with sh obtain st' bo' post'' where nf: "wr \<noteq> CS40L25_STATUS_FAIL E"
        and p': "post' = Ev_process bo st' bo' # post''"
        by (auto split: if_splits)
      from r3 p' have "fst (fw_img_process E bo w2) = (st', bo')"
        by (simp split: if_splits)
      with nf p' show ?thesis by simp
    qed
    from post w0 p1 x1 p2 x2 tl show ?thesis by blast
  qed
  have B: "fw_img' = fw_img \<and> write_size' = write_size \<and>
            boot_state s2 = snd (fst (fw_img_process E (boot_state s1) (world s1))) \<and>
            fst (cs40l25_write_block E (block_addr (block (boot_state s2))) (block_data (boot_state s2))
                   (block_size (block (boot_state s2)))
                   (snd (fw_img_process E (boot_state s1) (world s1)))) \<noteq> CS40L25_STATUS_FAIL E \<and>
            world s2 =
              snd (cs40l25_write_block E (block_addr (block (boot_state s2))) (block_data (boot_state s2))
                     (block_size (block (boot_state s2)))
                     (snd (fw_img_process E (boot_state s1) (world s1))))"
    if "fst (fst (fw_img_process E (boot_state s1) (world s1))) = FW_IMG_STATUS_DATA_READY E"
      and "boot_loop_body E fw_img_end fw_img write_size s1 = Inr (fw_img', write_size', s2)"
    for fw_img_end fw_img write_size s1 fw_img' write_size' s2
  proof -
    obtain st bo w1 where pr: "fw_img_process E (boot_state s1) (world s1) = ((st, bo), w1)"
      by (metis prod.exhaust)
    obtain wr w2 where wr: "cs40l25_write_block E (block_addr (block bo)) (block_data bo)
                 (block_size (block bo)) w1 = (wr, w2)"
      by (metis prod.exhaust)
    from that show ?thesis
      unfolding boot_loop_body_unfold [OF pr wr refl]
      by (auto simp: pr wr split: if_splits)
  qed
  from A B show ?thesis by blast
qed

theorem bsp_dut_boot_block_forwarding_demo:
  "new_calls demo_start (snd (bsp_dut_boot (Suc (Suc 0)) demo_env_device False demo_start)) =
     take 6 (new_calls demo_start (snd (bsp_dut_boot (Suc (Suc 0)) demo_env_device False demo_start))) @
     Ev_process
       ((boot_state demo_booted)\<lparr>block := \<lparr>block_addr = 0, block_size = 0\<rparr>,
          fw_img_blocks := 0x1000, fw_img_blocks_size := 1024\<rparr>)
       (FW_IMG_STATUS_DATA_READY demo_env_device)
       ((boot_state demo_booted)\<lparr>fw_img_blocks := 0x1000, fw_img_blocks_size := 1024\<rparr>) #
     drop 7 (new_calls demo_start (snd (bsp_dut_boot (Suc (Suc 0)) demo_env_device False demo_start))) \<and>
   (\<exists>st' bo' w0 w1 w2.
      drop 7 (new_calls demo_start (snd (bsp_dut_boot (Suc (Suc 0)) demo_env_device False demo_start))) =
        [Ev_write_block 0x2000 0x420 8 0,
         Ev_process ((boot_state demo_booted)\<lparr>fw_img_blocks := 0x1000, fw_img_blocks_size := 1024\<rparr>)
           st' bo'] \<and>
      replay demo_env_device (world demo_start)
        (take 6 (new_calls demo_start
           (snd (bsp_dut_boot (Suc (Suc 0)) demo_env_device False demo_start)))) = Some w0 \<and>
      fw_img_process demo_env_device
        ((boot_state demo_booted)\<lparr>block := \<lparr>block_addr = 0, block_size = 0\<rparr>,
           fw_img_blocks := 0x1000, fw_img_blocks_size := 1024\<rparr>) w0 =
        ((FW_IMG_STATUS_DATA_READY demo_env_device,
          (boot_state demo_booted)\<lparr>fw_img_blocks := 0x1000, fw_img_blocks_size := 1024\<rparr>), w1) \<and>
      cs40l25_write_block demo_env_device 0x2000 0x420 8 w1 = (0, w2) \<and>
      fst (fw_img_process demo_env_device
             ((boot_state demo_booted)\<lparr>fw_img_blocks := 0x1000, fw_img_blocks_size := 1024\<rparr>) w2) =
        (st', bo')) \<and>
   fst (fst (fw_img_process demo_env_device
       (boot_state (snd (bsp_dut_boot 0 demo_env_device False demo_start)))
       (world (snd (bsp_dut_boot 0 demo_env_device False demo_start))))) =
     FW_IMG_STATUS_DATA_READY demo_env_device \<and>
   boot_loop_body demo_env_device 0x15DC 0x1000 1024
       (snd (bsp_dut_boot 0 demo_env_device False demo_start)) =
     Inr (0x1000, 1024, snd (bsp_dut_boot (Suc 0) demo_env_device False demo_start)) \<and>
   world (snd (bsp_dut_boot (Suc 0) demo_env_device False demo_start)) =
     snd (cs40l25_write_block demo_env_device 0x2000 0x420 8
            (snd (fw_img_process demo_env_device
               (boot_state (snd (bsp_dut_boot 0 demo_env_device False demo_start)))
               (world (snd (bsp_dut_boot 0 demo_env_device False demo_start)))))) \<and>
   world (snd (bsp_dut_boot (Suc 0) demo_env_device False demo_start)) = 11"
proof -
  let ?tr = "new_calls demo_start (snd (bsp_dut_boot (Suc (Suc 0)) demo_env_device False demo_start))"
  let ?s0 = "snd (bsp_dut_boot 0 demo_env_device False demo_start)"
  let ?s1 = "snd (bsp_dut_boot (Suc 0) demo_env_device False demo_start)"
  let ?bo = "(boot_state demo_booted)\<lparr>fw_img_blocks := 0x1000, fw_img_blocks_size := 1024\<rparr>"
  let ?bi = "(boot_state demo_booted)\<lparr>block := \<lparr>block_addr = 0, block_size = 0\<rparr>,
          fw_img_blocks := 0x1000, fw_img_blocks_size := 1024\<rparr>"
  have h1: "?tr = take 6 ?tr @ Ev_process ?bi (FW_IMG_STATUS_DATA_READY demo_env_device) ?bo # drop 7 ?tr"
    by (simp add: run_defs demo_defs)
  have h2: "fst (fst (fw_img_process demo_env_device (boot_state ?s0) (world ?s0))) =
     FW_IMG_STATUS_DATA_READY demo_env_device"
    by (simp add: run_defs demo_defs)
  have h3: "boot_loop_body demo_env_device 0x15DC 0x1000 1024 ?s0 = Inr (0x1000, 1024, ?s1)"
    by (simp add: run_defs demo_defs)
  have h4: "drop 7 ?tr \<noteq> Ev_write_block 0x2000 0x420 8 (CS40L25_STATUS_FAIL demo_env_device) # []"
    "length (drop 7 ?tr) = 2" "hd (drop 7 ?tr) = Ev_write_block 0x2000 0x420 8 0"
    by (simp_all add: run_defs demo_defs)
  have h5: "world ?s1 = 11" "block_addr (block (boot_state ?s1)) = 0x2000"
    "block_data (boot_state ?s1) = 0x420" "block_size (block (boot_state ?s1)) = 8"
    by (simp_all add: run_defs demo_defs)
  note T = bsp_dut_boot_block_forwarding [of demo_start "Suc (Suc 0)" demo_env_device False
      "take 6 ?tr" ?bi ?bo "drop 7 ?tr"]
  from T h1 obtain wr post' w0 w1 w2 where
    p: "drop 7 ?tr = Ev_write_block (block_addr (block ?bo)) (block_data ?bo) (block_size (block ?bo)) wr # post'"
    and rp: "replay demo_env_device (world demo_start) (take 6 ?tr) = Some w0"
    and pr: "fw_img_process demo_env_device ?bi w0 =
               ((FW_IMG_STATUS_DATA_READY demo_env_device, ?bo), w1)"
    and wb: "cs40l25_write_block demo_env_device (block_addr (block ?bo)) (block_data ?bo)
               (block_size (block ?bo)) w1 = (wr, w2)"
    and q: "if wr = CS40L25_STATUS_FAIL demo_env_device
            then post' = [] \<and>
                 fst (bsp_dut_boot (Suc (Suc 0)) demo_env_device False demo_start) = Some BSP_STATUS_FAIL \<and>
                 world (snd (bsp_dut_boot (Suc (Suc 0)) demo_env_device False demo_start)) = w2
            else (post' = [] \<and>
                  fst (bsp_dut_boot (Suc (Suc 0)) demo_env_device False demo_start) = None \<and>
                  world (snd (bsp_dut_boot (Suc (Suc 0)) demo_env_device False demo_start)) = w2) \<or>
                 (\<exists>st' bo' post''. post' = Ev_process ?bo st' bo' # post'' \<and>
                    fst (fw_img_process demo_env_device ?bo w2) = (st', bo'))"
    by blast
  from p h4 have wr: "wr = 0" and len: "length post' = 1" by (simp_all add: demo_defs)
  from wr have nf: "wr \<noteq> CS40L25_STATUS_FAIL demo_env_device" by (simp add: demo_defs)
  from len have "post' \<noteq> []" by auto
  with q nf obtain st' bo' post'' where p': "post' = Ev_process ?bo st' bo' # post''"
    and nx: "fst (fw_img_process demo_env_device ?bo w2) = (st', bo')" by auto
  from p' len have "post' = [Ev_process ?bo st' bo']" by simp
  with p wr have d: "drop 7 ?tr = [Ev_write_block 0x2000 0x420 8 0, Ev_process ?bo st' bo']"
    by (simp add: demo_defs)
  from wb wr have wb': "cs40l25_write_block demo_env_device 0x2000 0x420 8 w1 = (0, w2)"
    by (simp add: demo_defs)
  from d rp pr wb' nx have c1: "\<exists>st' bo' w0 w1 w2.
      drop 7 ?tr = [Ev_write_block 0x2000 0x420 8 0, Ev_process ?bo st' bo'] \<and>
      replay demo_env_device (world demo_start) (take 6 ?tr) = Some w0 \<and>
      fw_img_process demo_env_device ?bi w0 = ((FW_IMG_STATUS_DATA_READY demo_env_device, ?bo), w1) \<and>
      cs40l25_write_block demo_env_device 0x2000 0x420 8 w1 = (0, w2) \<and>
      fst (fw_img_process demo_env_device ?bo w2) = (st', bo')"
    by blast
  from T h2 h3 have "world ?s1 =
     snd (cs40l25_write_block demo_env_device (block_addr (block (boot_state ?s1)))
            (block_data (boot_state ?s1)) (block_size (block (boot_state ?s1)))
            (snd (fw_img_process demo_env_device (boot_state ?s0) (world ?s0))))"
    by blast
  then have c2: "world ?s1 =
     snd (cs40l25_write_block demo_env_device 0x2000 0x420 8
            (snd (fw_img_process demo_env_device (boot_state ?s0) (world ?s0))))"
    unfolding h5 .
  from h1 c1 h2 h3 c2 h5(1) show ?thesis by blast
qed

subsection \<open>The next chunk\<close>

lemma boot_loop_head_invariant:
  "boot_loop_head k E e f0 ws0 s0 = Some (f, ws, s) \<Longrightarrow>
   ws0 = 1024 \<or> f0 + ws0 = e \<or> f0 = e \<Longrightarrow>
   ws = 1024 \<or> f + ws = e \<or> f = e"
proof (induction k arbitrary: f0 ws0 s0)
  case 0
  then show ?case by simp
next
  case (Suc k)
  obtain st bo w1 where pr: "fw_img_process E (boot_state s0) (world s0) = ((st, bo), w1)"
    by (metis prod.exhaust)
  obtain wr w2 where wr: "cs40l25_write_block E (block_addr (block bo)) (block_data bo)
                 (block_size (block bo)) w1 = (wr, w2)"
    by (metis prod.exhaust)
  note B = boot_loop_body_unfold [OF pr wr refl]
  from Suc.prems show ?case
    unfolding boot_loop_head.simps B
    by (auto split: if_splits dest!: Suc.IH)
qed

lemma next_chunk_size_bytes:
  fixes fw_img_end fw_img write_size :: "32 word"
  assumes i: "unat fw_img + unat write_size \<le> unat fw_img_end"
  shows "unat (fw_img + write_size) = unat fw_img + unat write_size"
    and "unat (if fw_img_end - (fw_img + write_size) < 1024
               then fw_img_end - (fw_img + write_size) else 1024) =
         min (unat fw_img_end - (unat fw_img + unat write_size)) 1024"
proof -
  have "unat fw_img_end < 2 ^ 32" using unsigned_less [of fw_img_end] by simp
  with i have "unat fw_img + unat write_size < 2 ^ LENGTH(32)" by simp
  then show a: "unat (fw_img + write_size) = unat fw_img + unat write_size"
    by (simp only: unat_add_lem [THEN iffD1])
  with i have "fw_img + write_size \<le> fw_img_end" by (simp add: word_le_nat_alt)
  then have d: "unat (fw_img_end - (fw_img + write_size)) =
      unat fw_img_end - (unat fw_img + unat write_size)"
    by (simp add: unat_sub a)
  have "fw_img_end - (fw_img + write_size) < 1024 \<longleftrightarrow>
      unat (fw_img_end - (fw_img + write_size)) < 1024"
    by (simp add: word_less_nat_alt)
  with d show "unat (if fw_img_end - (fw_img + write_size) < 1024
               then fw_img_end - (fw_img + write_size) else 1024) =
         min (unat fw_img_end - (unat fw_img + unat write_size)) 1024"
    by (simp add: min_def)
qed

text \<open>
  Claim C6, as stated, does not hold.  On the concrete platform with a calibration image
  of 500 bytes at \<open>0x8000\<close>, which ends at \<open>0x81F4\<close>, the first chunk handed to the parser
  is 1024 bytes long all the same.  When the parser reports \<^verbatim>\<open>FW_IMG_STATUS_NODATA\<close> for
  it, \<^verbatim>\<open>fw_img\<close> advances to \<open>0x8400\<close>, beyond the end of the image: no byte remains,
  which is fewer than 1024, and yet the size of the next chunk is set to 1024, and
  \<open>fw_img_blocks\<close> to \<open>0x8400\<close>.  The difference \<^verbatim>\<open>fw_img_end - fw_img\<close> that the code
  compares with \<^verbatim>\<open>write_size\<close> is \<open>-524\<close>, which as an unsigned 32-bit value is
  \<open>0xFFFFFDF4\<close>.  The run ends with these values in the boot state.
\<close>

theorem boot_loop_next_chunk_short_image:
  "cs40l25_cal_fw_img demo_env_short = 0x8000 \<and>
   cs40l25_cal_fw_img_size demo_env_short = 500 \<and>
   cs40l25_cal_fw_img demo_env_short + cs40l25_cal_fw_img_size demo_env_short = 0x81F4 \<and>
   boot_loop_head 0 demo_env_short 0x81F4 0x8000 1024
       (snd (bsp_dut_boot 0 demo_env_short True demo_booted)) =
     Some (0x8000, 1024, snd (bsp_dut_boot 0 demo_env_short True demo_booted)) \<and>
   (0x8000 :: ptr) < 0x81F4 \<and>
   fst (fst (fw_img_process demo_env_short
      (boot_state (snd (bsp_dut_boot 0 demo_env_short True demo_booted)))
      (world (snd (bsp_dut_boot 0 demo_env_short True demo_booted))))) =
     FW_IMG_STATUS_NODATA demo_env_short \<and>
   boot_loop_body demo_env_short 0x81F4 0x8000 1024
       (snd (bsp_dut_boot 0 demo_env_short True demo_booted)) =
     Inr (0x8400, 1024, snd (bsp_dut_boot (Suc 0) demo_env_short True demo_booted)) \<and>
   fw_img_blocks (boot_state (snd (bsp_dut_boot (Suc 0) demo_env_short True demo_booted))) = 0x8400 \<and>
   fw_img_blocks_size (boot_state (snd (bsp_dut_boot (Suc 0) demo_env_short True demo_booted))) = 1024 \<and>
   (0x81F4 :: ptr) < 0x8400 \<and>
   uint (0x81F4 :: ptr) - uint (0x8400 :: ptr) = - 524 \<and>
   (0x81F4 - 0x8400 :: u32) = 0xFFFFFDF4 \<and>
   fst (bsp_dut_boot (Suc (Suc 0)) demo_env_short True demo_booted) = Some 0 \<and>
   fw_img_blocks (boot_state (snd (bsp_dut_boot (Suc (Suc 0)) demo_env_short True demo_booted))) =
     0x8400 \<and>
   fw_img_blocks_size (boot_state (snd (bsp_dut_boot (Suc (Suc 0)) demo_env_short True demo_booted))) =
     1024"
  by (simp add: run_defs demo_defs)

text \<open>
  Claim C6, amended.  The loop of \<^verbatim>\<open>bsp_dut_boot\<close> is entered with
  \<^verbatim>\<open>write_size = 1024\<close>.  At any later test of the loop condition that succeeds, if the
  chunk in hand ends within the image (\<open>fw_img + write_size\<close> is not beyond
  \<^verbatim>\<open>fw_img_end\<close>) and the parser then reports \<^verbatim>\<open>FW_IMG_STATUS_NODATA\<close>, the pass through
  the body advances \<^verbatim>\<open>fw_img\<close> by \<^verbatim>\<open>write_size\<close> bytes, points \<open>fw_img_blocks\<close> at it, and
  sets both \<^verbatim>\<open>write_size\<close> and \<open>fw_img_blocks_size\<close> to the number of image bytes that
  remain from there when that number is less than 1024, and to 1024 otherwise.  Addresses
  and sizes are read as natural numbers, and the three parser status codes are taken to
  be different.
\<close>

theorem boot_loop_next_chunk:
  assumes h: "boot_loop_head k E fw_img_end fw_img0 1024 s0 = Some (fw_img, write_size, s)"
      and c: "fw_img < fw_img_end"
      and i: "unat fw_img + unat write_size \<le> unat fw_img_end"
      and p: "fw_img_process E (boot_state s) (world s) = ((FW_IMG_STATUS_NODATA E, bo), w1)"
      and d1: "FW_IMG_STATUS_NODATA E \<noteq> FW_IMG_STATUS_DATA_READY E"
      and d2: "FW_IMG_STATUS_NODATA E \<noteq> FW_IMG_STATUS_FAIL E"
  shows "\<exists>fw_img' write_size'.
           boot_loop_body E fw_img_end fw_img write_size s =
             Inr (fw_img', write_size',
                  s\<lparr>world := w1,
                    calls := calls s @ [Ev_process (boot_state s) (FW_IMG_STATUS_NODATA E) bo],
                    boot_state := bo\<lparr>fw_img_blocks := fw_img',
                                     fw_img_blocks_size := write_size'\<rparr>\<rparr>) \<and>
           unat fw_img' = unat fw_img + unat write_size \<and>
           unat write_size' = min (unat fw_img_end - unat fw_img') 1024"
proof -
  obtain wr w2 where wr: "cs40l25_write_block E (block_addr (block bo)) (block_data bo)
                 (block_size (block bo)) w1 = (wr, w2)"
    by (metis prod.exhaust)
  from boot_loop_head_invariant [OF h] have inv:
    "write_size = 1024 \<or> fw_img + write_size = fw_img_end \<or> fw_img = fw_img_end" by simp
  have ws: "(if fw_img_end - (fw_img + write_size) < write_size
             then fw_img_end - (fw_img + write_size) else write_size) =
            (if fw_img_end - (fw_img + write_size) < 1024
             then fw_img_end - (fw_img + write_size) else 1024)"
  proof (cases "write_size = 1024")
    case True
    then show ?thesis by simp
  next
    case False
    with inv c have e: "fw_img + write_size = fw_img_end" by auto
    with c have "write_size \<noteq> 0" by auto
    then have "0 < write_size" by (simp add: word_neq_0_conv)
    with e show ?thesis by simp
  qed
  have b: "boot_loop_body E fw_img_end fw_img write_size s =
           Inr (fw_img + write_size,
                (if fw_img_end - (fw_img + write_size) < 1024
                 then fw_img_end - (fw_img + write_size) else 1024),
                s\<lparr>world := w1,
                  calls := calls s @ [Ev_process (boot_state s) (FW_IMG_STATUS_NODATA E) bo],
                  boot_state := bo\<lparr>fw_img_blocks := fw_img + write_size,
                    fw_img_blocks_size :=
                      (if fw_img_end - (fw_img + write_size) < 1024
                       then fw_img_end - (fw_img + write_size) else 1024)\<rparr>\<rparr>)"
    unfolding boot_loop_body_unfold [OF p wr refl] ws [symmetric]
    using d1 d2 by simp
  note n = next_chunk_size_bytes [OF i]
  from n(2) have "unat (if fw_img_end - (fw_img + write_size) < 1024
               then fw_img_end - (fw_img + write_size) else 1024) =
         min (unat fw_img_end - unat (fw_img + write_size)) 1024"
    unfolding n(1) .
  with b n(1) show ?thesis by blast
qed

theorem boot_loop_next_chunk_demo:
  "boot_loop_head (Suc 0) demo_env 0x15DC 0x1000 1024 (snd (bsp_dut_boot 0 demo_env False demo_start)) =
     Some (0x1000, 1024, snd (bsp_dut_boot (Suc 0) demo_env False demo_start)) \<and>
   (0x1000 :: ptr) < 0x15DC \<and>
   unat (0x1000 :: ptr) + unat (1024 :: u32) \<le> unat (0x15DC :: ptr) \<and>
   fst (fst (fw_img_process demo_env
      (boot_state (snd (bsp_dut_boot (Suc 0) demo_env False demo_start)))
      (world (snd (bsp_dut_boot (Suc 0) demo_env False demo_start))))) =
     FW_IMG_STATUS_NODATA demo_env \<and>
   FW_IMG_STATUS_NODATA demo_env \<noteq> FW_IMG_STATUS_DATA_READY demo_env \<and>
   FW_IMG_STATUS_NODATA demo_env \<noteq> FW_IMG_STATUS_FAIL demo_env \<and>
   boot_loop_body demo_env 0x15DC 0x1000 1024 (snd (bsp_dut_boot (Suc 0) demo_env False demo_start)) =
     Inr (0x1400, 476, snd (bsp_dut_boot (Suc (Suc 0)) demo_env False demo_start)) \<and>
   unat (0x1400 :: ptr) = unat (0x1000 :: ptr) + unat (1024 :: u32) \<and>
   unat (476 :: u32) = min (unat (0x15DC :: ptr) - unat (0x1400 :: ptr)) 1024"
proof -
  let ?s1 = "snd (bsp_dut_boot (Suc 0) demo_env False demo_start)"
  have h: "boot_loop_head (Suc 0) demo_env 0x15DC 0x1000 1024
             (snd (bsp_dut_boot 0 demo_env False demo_start)) = Some (0x1000, 1024, ?s1)"
    by (simp add: run_defs demo_defs)
  have c: "(0x1000 :: ptr) < 0x15DC" by simp
  have i: "unat (0x1000 :: ptr) + unat (1024 :: u32) \<le> unat (0x15DC :: ptr)" by simp
  have p: "fw_img_process demo_env (boot_state ?s1) (world ?s1) =
      ((FW_IMG_STATUS_NODATA demo_env, boot_state ?s1), 2)"
    by (simp add: run_defs demo_defs)
  have d1: "FW_IMG_STATUS_NODATA demo_env \<noteq> FW_IMG_STATUS_DATA_READY demo_env"
    and d2: "FW_IMG_STATUS_NODATA demo_env \<noteq> FW_IMG_STATUS_FAIL demo_env"
    by (simp_all add: demo_defs)
  have e: "boot_loop_body demo_env 0x15DC 0x1000 1024 ?s1 =
      Inr (0x1400, 476, snd (bsp_dut_boot (Suc (Suc 0)) demo_env False demo_start))"
    by (simp add: run_defs demo_defs)
  from boot_loop_next_chunk [OF h c i p d1 d2] obtain fw_img' write_size' where
    b: "boot_loop_body demo_env 0x15DC 0x1000 1024 ?s1 =
          Inr (fw_img', write_size',
               ?s1\<lparr>world := 2,
                 calls := calls ?s1 @
                   [Ev_process (boot_state ?s1) (FW_IMG_STATUS_NODATA demo_env) (boot_state ?s1)],
                 boot_state := (boot_state ?s1)\<lparr>fw_img_blocks := fw_img',
                                                  fw_img_blocks_size := write_size'\<rparr>\<rparr>)"
    and u: "unat fw_img' = unat (0x1000 :: ptr) + unat (1024 :: u32)"
    and v: "unat write_size' = min (unat (0x15DC :: ptr) - unat fw_img') 1024"
    by blast
  from b e have f: "fw_img' = 0x1400" "write_size' = 476" by simp_all
  from h c i p d1 d2 e u v show ?thesis
    unfolding f by simp
qed

subsection \<open>The commit\<close>

lemma boot_loop_commit_last:
  "fst (boot_loop n E e f ws s) = Some r \<Longrightarrow>
   \<forall>y \<in> set (new_calls s (snd (boot_loop n E e f ws s))). \<not> is_error_event E y \<Longrightarrow>
   new_calls s (snd (boot_loop n E e f ws s)) \<noteq> [] \<and>
   last (new_calls s (snd (boot_loop n E e f ws s))) =
     Ev_boot (Some (fw_info (boot_state (snd (boot_loop n E e f ws s))))) r \<and>
   (\<forall>y \<in> set (butlast (new_calls s (snd (boot_loop n E e f ws s)))). \<not> is_commit y) \<and>
   current_halo_heartbeat (snd (boot_loop n E e f ws s)) = 0"
proof (induction n arbitrary: f ws s)
  case 0
  then show ?case by simp
next
  case (Suc n)
  obtain st bo w1 where pr: "fw_img_process E (boot_state s) (world s) = ((st, bo), w1)"
    by (metis prod.exhaust)
  obtain wr w2 where wr: "cs40l25_write_block E (block_addr (block bo)) (block_data bo)
                 (block_size (block bo)) w1 = (wr, w2)"
    by (metis prod.exhaust)
  obtain rc wc where cm: "cs40l25_boot E (Some (fw_info (boot_state s))) (world s) = (rc, wc)"
    by (metis prod.exhaust)
  note N = new_calls_boot_loop_unfold [OF pr wr refl refl]
  note L = boot_loop_Suc_unfold [OF pr wr cm refl refl]
  from Suc.prems show ?case
    apply (unfold N)
    apply (unfold L)
    apply (auto simp: cm dest: Suc.IH split: if_splits)
    done
qed

lemma bsp_dut_boot_commit_log:
  fixes E :: "('p::zero, 'w) env"
  assumes ok: "fst (cs40l25_boot E None (world s)) = CS40L25_STATUS_OK E"
      and r: "fst (bsp_dut_boot n E cal_boot s) = Some r"
      and ne: "\<forall>y \<in> set (new_calls s (snd (bsp_dut_boot n E cal_boot s))). \<not> is_error_event E y"
  shows "(\<exists>pre. new_calls s (snd (bsp_dut_boot n E cal_boot s)) =
                  pre @ [Ev_boot (Some (fw_info (boot_state (snd (bsp_dut_boot n E cal_boot s))))) r] \<and>
                (\<forall>y \<in> set pre. \<not> is_commit y)) \<and>
         current_halo_heartbeat (snd (bsp_dut_boot n E cal_boot s)) = 0"
proof -
  define fw_img where "fw_img = (if \<not> cal_boot then cs40l25_fw_img E else cs40l25_cal_fw_img E)"
  define fw_img_end where
    "fw_img_end = (if \<not> cal_boot then cs40l25_fw_img E + cs40l25_fw_img_size E
                   else cs40l25_cal_fw_img E + cs40l25_cal_fw_img_size E)"
  obtain r0 w0 where b0: "cs40l25_boot E None (world s) = (r0, w0)"
    by (metis prod.exhaust)
  obtain rh bsh wh where hd: "fw_img_read_header E (first_chunk fw_img)
      (fold (bsp_free E) (held_buffers (boot_state s)) w0) = ((rh, bsh), wh)"
    by (metis prod.exhaust)
  obtain sz1 sz2 sz3 where sz: "buffer_sizes E bsh = [sz1, sz2, sz3]"
    by (simp add: buffer_sizes_def)
  obtain p1 w1 where m1: "bsp_malloc E sz1 wh = (p1, w1)" by (metis prod.exhaust)
  obtain p2 w2 where m2: "bsp_malloc E sz2 w1 = (p2, w2)" by (metis prod.exhaust)
  obtain p3 w3 where m3: "bsp_malloc E sz3 w2 = (p3, w3)" by (metis prod.exhaust)
  define pre where "pre = Ev_boot None r0 # map Ev_free (held_buffers (boot_state s)) @
                        [Ev_memset, Ev_read_header (first_chunk fw_img) rh bsh]"
  define sL where "sL = s\<lparr>world := w3,
               calls := calls s @ pre @ [Ev_malloc sz1 p1, Ev_malloc sz2 p2, Ev_malloc sz3 p3],
               boot_state := (with_buffers p1 p2 bsh)\<lparr>block_data_size := sz3, block_data := p3\<rparr>\<rparr>"
  note U = bsp_dut_boot_unfold [OF fw_img_def fw_img_end_def b0 hd sz m1 m2 m3 pre_def,
      folded sL_def]
  note S = bsp_dut_boot_status [OF fw_img_def fw_img_end_def b0 hd sz m1 m2 m3 pre_def sL_def]
  note C = bsp_dut_boot_calls [OF fw_img_def fw_img_end_def b0 hd sz m1 m2 m3 pre_def sL_def]

  let ?tr = "new_calls s (snd (bsp_dut_boot n E cal_boot s))"
  let ?lp = "new_calls sL (snd (boot_loop n E fw_img_end fw_img 1024 sL))"
  from ok b0 have r0: "r0 = CS40L25_STATUS_OK E" by simp
  from ne r0 have ok': "rh = 0 \<and> p1 \<noteq> 0 \<and> p2 \<noteq> 0 \<and> p3 \<noteq> 0"
    unfolding C by (auto simp: pre_def split: if_splits)
  with r0 have T: "?tr = pre @ [Ev_malloc sz1 p1, Ev_malloc sz2 p2, Ev_malloc sz3 p3] @ ?lp"
    unfolding C by simp
  from r0 ok' have R: "bsp_dut_boot n E cal_boot s = boot_loop n E fw_img_end fw_img 1024 sL"
    unfolding U by simp
  from r R have r': "fst (boot_loop n E fw_img_end fw_img 1024 sL) = Some r" by simp
  from ne T have ne': "\<forall>y \<in> set ?lp. \<not> is_error_event E y" by simp
  note IH = boot_loop_commit_last [OF r' ne']
  from IH have "?lp \<noteq> []" by simp
  then have "butlast ?lp @ [last ?lp] = ?lp" by (rule append_butlast_last_id)
  with IH have lp: "?lp = butlast ?lp @
      [Ev_boot (Some (fw_info (boot_state (snd (boot_loop n E fw_img_end fw_img 1024 sL))))) r]"
    by simp
  have "?tr = (pre @ [Ev_malloc sz1 p1, Ev_malloc sz2 p2, Ev_malloc sz3 p3] @ butlast ?lp) @
                [Ev_boot (Some (fw_info (boot_state (snd (bsp_dut_boot n E cal_boot s))))) r]"
    using T lp R by simp
  moreover have "\<forall>y \<in> set (pre @ [Ev_malloc sz1 p1, Ev_malloc sz2 p2, Ev_malloc sz3 p3] @ butlast ?lp).
      \<not> is_commit y"
    using IH by (auto simp: pre_def)
  ultimately show ?thesis using IH R by metis
qed

text \<open>
  Claim C7.  When \<^verbatim>\<open>bsp_dut_boot\<close> returns after its first call of \<^verbatim>\<open>cs40l25_boot\<close>
  succeeded and no call failed, its last call is \<^verbatim>\<open>cs40l25_boot\<close> with the firmware
  descriptor of the boot state and no earlier call is a commit.  The earlier calls are the
  true answers of their collaborators and lead from the world on entry to a world \<open>w\<close>;
  the commit is the call \<open>cs40l25_boot E (Some fw_info) w\<close> of the driver in that world:
  the status it returns is the status \<^verbatim>\<open>bsp_dut_boot\<close> returns (whatever it is), and the
  world it leaves is the world the run leaves.  The heartbeat counter has been reset.
\<close>

theorem bsp_dut_boot_commit:
  fixes E :: "('p::zero, 'w) env"
  assumes ok: "fst (cs40l25_boot E None (world s)) = CS40L25_STATUS_OK E"
      and r: "fst (bsp_dut_boot n E cal_boot s) = Some r"
      and ne: "\<forall>y \<in> set (new_calls s (snd (bsp_dut_boot n E cal_boot s))). \<not> is_error_event E y"
  shows "(\<exists>pre w. new_calls s (snd (bsp_dut_boot n E cal_boot s)) =
                  pre @ [Ev_boot (Some (fw_info (boot_state (snd (bsp_dut_boot n E cal_boot s))))) r] \<and>
                (\<forall>y \<in> set pre. \<not> is_commit y) \<and>
                replay E (world s) pre = Some w \<and>
                cs40l25_boot E (Some (fw_info (boot_state (snd (bsp_dut_boot n E cal_boot s))))) w =
                  (r, world (snd (bsp_dut_boot n E cal_boot s)))) \<and>
         current_halo_heartbeat (snd (bsp_dut_boot n E cal_boot s)) = 0"
proof -
  let ?s' = "snd (bsp_dut_boot n E cal_boot s)"
  from bsp_dut_boot_commit_log [OF ok r ne] obtain pre where
    T: "new_calls s ?s' = pre @ [Ev_boot (Some (fw_info (boot_state ?s'))) r]"
    and nc: "\<forall>y \<in> set pre. \<not> is_commit y"
    and hb: "current_halo_heartbeat ?s' = 0"
    by blast
  have "replay E (world s) (pre @ [Ev_boot (Some (fw_info (boot_state ?s'))) r]) = Some (world ?s')"
    using bsp_dut_boot_replay [of E s n cal_boot] unfolding T .
  then obtain w where w: "replay E (world s) pre = Some w"
    and c: "replay E w [Ev_boot (Some (fw_info (boot_state ?s'))) r] = Some (world ?s')"
    by (auto simp: replay_append split: option.splits)
  from c have "cs40l25_boot E (Some (fw_info (boot_state ?s'))) w = (r, world ?s')"
    by (cases "cs40l25_boot E (Some (fw_info (boot_state ?s'))) w") (simp split: if_splits)
  with T nc w hb show ?thesis by blast
qed

theorem bsp_dut_boot_commit_demo:
  "fst (cs40l25_boot demo_env_device None (world demo_start)) = CS40L25_STATUS_OK demo_env_device \<and>
   fst (bsp_dut_boot (Suc (Suc (Suc (Suc 0)))) demo_env_device False demo_start) = Some 7 \<and>
   filter (is_error_event demo_env_device)
     (new_calls demo_start
        (snd (bsp_dut_boot (Suc (Suc (Suc (Suc 0)))) demo_env_device False demo_start))) = [] \<and>
   world (snd (bsp_dut_boot (Suc (Suc (Suc (Suc 0)))) demo_env_device False demo_start)) = 113 \<and>
   (\<exists>pre w. new_calls demo_start
             (snd (bsp_dut_boot (Suc (Suc (Suc (Suc 0)))) demo_env_device False demo_start)) =
           pre @ [Ev_boot (Some (fw_info (boot_state
             (snd (bsp_dut_boot (Suc (Suc (Suc (Suc 0)))) demo_env_device False demo_start))))) 7] \<and>
          (\<forall>y \<in> set pre. \<not> is_commit y) \<and>
          replay demo_env_device (world demo_start) pre = Some w \<and>
          cs40l25_boot demo_env_device (Some (fw_info (boot_state
             (snd (bsp_dut_boot (Suc (Suc (Suc (Suc 0)))) demo_env_device False demo_start))))) w =
            (7, 113))"
proof -
  have h1: "fst (cs40l25_boot demo_env_device None (world demo_start)) =
      CS40L25_STATUS_OK demo_env_device"
    by (simp add: demo_defs)
  have h2: "fst (bsp_dut_boot (Suc (Suc (Suc (Suc 0)))) demo_env_device False demo_start) = Some 7"
    by (simp add: run_defs demo_defs)
  have h3: "filter (is_error_event demo_env_device)
     (new_calls demo_start
        (snd (bsp_dut_boot (Suc (Suc (Suc (Suc 0)))) demo_env_device False demo_start))) = []"
    by (simp add: run_defs demo_defs)
  then have h3': "\<forall>y \<in> set (new_calls demo_start
        (snd (bsp_dut_boot (Suc (Suc (Suc (Suc 0)))) demo_env_device False demo_start))).
      \<not> is_error_event demo_env_device y"
    by (simp only: filter_empty_conv)
  have h4: "world (snd (bsp_dut_boot (Suc (Suc (Suc (Suc 0)))) demo_env_device False demo_start)) = 113"
    by (simp add: run_defs demo_defs)
  from bsp_dut_boot_commit [OF h1 h2 h3'] h1 h2 h3 h4 show ?thesis
    unfolding h4 by blast
qed

subsection \<open>Buffers are released by the next boot\<close>

lemma boot_loop_no_alloc:
  "free_calls (new_calls s (snd (boot_loop n E e f ws s))) = [] \<and>
   malloc_calls (new_calls s (snd (boot_loop n E e f ws s))) = [] \<and>
   Ev_memset \<notin> set (new_calls s (snd (boot_loop n E e f ws s)))"
proof (induction n arbitrary: f ws s)
  case 0
  show ?case by (simp add: new_calls_def)
next
  case (Suc n)
  obtain st bo w1 where pr: "fw_img_process E (boot_state s) (world s) = ((st, bo), w1)"
    by (metis prod.exhaust)
  obtain wr w2 where wr: "cs40l25_write_block E (block_addr (block bo)) (block_data bo)
                 (block_size (block bo)) w1 = (wr, w2)"
    by (metis prod.exhaust)
  obtain rc wc where cm: "cs40l25_boot E (Some (fw_info (boot_state s))) (world s) = (rc, wc)"
    by (metis prod.exhaust)
  note N = new_calls_boot_loop_unfold [OF pr wr refl refl]
  note L = boot_loop_Suc_unfold [OF pr wr cm refl refl]

  show ?case
    unfolding N by (simp add: Suc.IH)
qed

lemma held_buffers_chunk:
  "held_buffers (bs\<lparr>fw_img_blocks := p, fw_img_blocks_size := k\<rparr>) = held_buffers bs"
  by (simp add: held_buffers_def)

lemma boot_loop_keeps_buffers:
  assumes k: "keeps_buffers E"
  shows "held_buffers (boot_state (snd (boot_loop n E e f ws s))) = held_buffers (boot_state s)"
proof (induction n arbitrary: f ws s)
  case 0
  show ?case by simp
next
  case (Suc n)
  obtain st bo w1 where pr: "fw_img_process E (boot_state s) (world s) = ((st, bo), w1)"
    by (metis prod.exhaust)
  obtain wr w2 where wr: "cs40l25_write_block E (block_addr (block bo)) (block_data bo)
                 (block_size (block bo)) w1 = (wr, w2)"
    by (metis prod.exhaust)
  obtain rc wc where cm: "cs40l25_boot E (Some (fw_info (boot_state s))) (world s) = (rc, wc)"
    by (metis prod.exhaust)
  note N = new_calls_boot_loop_unfold [OF pr wr refl refl]
  note L = boot_loop_Suc_unfold [OF pr wr cm refl refl]

  from k have "held_buffers (snd (fst (fw_img_process E (boot_state s) (world s)))) =
      held_buffers (boot_state s)"
    by (simp add: keeps_buffers_def)
  with pr have bo: "held_buffers bo = held_buffers (boot_state s)" by simp
  show ?case
    unfolding L by (simp add: Suc.IH bo held_buffers_chunk)
qed

lemma held_buffers_empty:
  "held_buffers bs = [] \<longleftrightarrow> sym_table (fw_info bs) = 0 \<and> alg_id_list (fw_info bs) = 0 \<and> block_data bs = 0"
  by (auto simp: held_buffers_def)

text \<open>
  Claim C8.  A run of \<^verbatim>\<open>bsp_dut_boot\<close> whose first call of \<^verbatim>\<open>cs40l25_boot\<close> fails makes
  no other call: it frees and allocates nothing, leaves the boot state alone, and leaves
  the world as that call left it.  Otherwise its calls are: that call, then \<^verbatim>\<open>bsp_free\<close>
  for exactly the non-\<^verbatim>\<open>NULL\<close> buffers the boot state held on entry, then the \<^verbatim>\<open>memset\<close>,
  then the header decode on the zeroed state, then the rest, in which nothing is freed and
  nothing zeroed, on every path and for every fuel.  The header decoder is called in the
  world in which the allocator has released those buffers, one after the other, after the
  first call; the rest consists of the true answers of the collaborators and leads from the
  world the decoder left to the world the run leaves, so nothing else is released there.
  When the parser leaves the buffer pointers alone, the non-\<^verbatim>\<open>NULL\<close> pointers allocated in
  the run are exactly the buffers the boot state holds when the run ends, which are the
  ones the next run frees.
\<close>

theorem bsp_dut_boot_buffers:
  fixes E :: "('p::zero, 'w) env"
  shows "(fst (cs40l25_boot E None (world s)) \<noteq> CS40L25_STATUS_OK E \<longrightarrow>
            new_calls s (snd (bsp_dut_boot n E cal_boot s)) =
              [Ev_boot None (fst (cs40l25_boot E None (world s)))] \<and>
            free_calls (new_calls s (snd (bsp_dut_boot n E cal_boot s))) = [] \<and>
            malloc_calls (new_calls s (snd (bsp_dut_boot n E cal_boot s))) = [] \<and>
            boot_state (snd (bsp_dut_boot n E cal_boot s)) = boot_state s \<and>
            world (snd (bsp_dut_boot n E cal_boot s)) = snd (cs40l25_boot E None (world s))) \<and>
         (fst (cs40l25_boot E None (world s)) = CS40L25_STATUS_OK E \<longrightarrow>
            (\<exists>rh bsh wh rest.
               new_calls s (snd (bsp_dut_boot n E cal_boot s)) =
                 Ev_boot None (CS40L25_STATUS_OK E) # map Ev_free (held_buffers (boot_state s)) @
                 Ev_memset #
                 Ev_read_header
                   (first_chunk (if \<not> cal_boot then cs40l25_fw_img E else cs40l25_cal_fw_img E))
                   rh bsh # rest \<and>
               fw_img_read_header E
                   (first_chunk (if \<not> cal_boot then cs40l25_fw_img E else cs40l25_cal_fw_img E))
                   (fold (bsp_free E) (held_buffers (boot_state s))
                      (snd (cs40l25_boot E None (world s)))) = ((rh, bsh), wh) \<and>
               replay E wh rest = Some (world (snd (bsp_dut_boot n E cal_boot s))) \<and>
               free_calls rest = [] \<and> Ev_memset \<notin> set rest \<and>
               (keeps_buffers E \<longrightarrow>
                  filter (\<lambda>p. p \<noteq> 0) (map snd (malloc_calls rest)) =
                    held_buffers (boot_state (snd (bsp_dut_boot n E cal_boot s))))))"
proof -
  define fw_img where "fw_img = (if \<not> cal_boot then cs40l25_fw_img E else cs40l25_cal_fw_img E)"
  define fw_img_end where
    "fw_img_end = (if \<not> cal_boot then cs40l25_fw_img E + cs40l25_fw_img_size E
                   else cs40l25_cal_fw_img E + cs40l25_cal_fw_img_size E)"
  obtain r0 w0 where b0: "cs40l25_boot E None (world s) = (r0, w0)"
    by (metis prod.exhaust)
  obtain rh bsh wh where hd: "fw_img_read_header E (first_chunk fw_img)
      (fold (bsp_free E) (held_buffers (boot_state s)) w0) = ((rh, bsh), wh)"
    by (metis prod.exhaust)
  obtain sz1 sz2 sz3 where sz: "buffer_sizes E bsh = [sz1, sz2, sz3]"
    by (simp add: buffer_sizes_def)
  obtain p1 w1 where m1: "bsp_malloc E sz1 wh = (p1, w1)" by (metis prod.exhaust)
  obtain p2 w2 where m2: "bsp_malloc E sz2 w1 = (p2, w2)" by (metis prod.exhaust)
  obtain p3 w3 where m3: "bsp_malloc E sz3 w2 = (p3, w3)" by (metis prod.exhaust)
  define pre where "pre = Ev_boot None r0 # map Ev_free (held_buffers (boot_state s)) @
                        [Ev_memset, Ev_read_header (first_chunk fw_img) rh bsh]"
  define sL where "sL = s\<lparr>world := w3,
               calls := calls s @ pre @ [Ev_malloc sz1 p1, Ev_malloc sz2 p2, Ev_malloc sz3 p3],
               boot_state := (with_buffers p1 p2 bsh)\<lparr>block_data_size := sz3, block_data := p3\<rparr>\<rparr>"
  note U = bsp_dut_boot_unfold [OF fw_img_def fw_img_end_def b0 hd sz m1 m2 m3 pre_def,
      folded sL_def]
  note S = bsp_dut_boot_status [OF fw_img_def fw_img_end_def b0 hd sz m1 m2 m3 pre_def sL_def]
  note C = bsp_dut_boot_calls [OF fw_img_def fw_img_end_def b0 hd sz m1 m2 m3 pre_def sL_def]

  let ?tr = "new_calls s (snd (bsp_dut_boot n E cal_boot s))"
  let ?lp = "new_calls sL (snd (boot_loop n E fw_img_end fw_img 1024 sL))"
  have A: "r0 \<noteq> CS40L25_STATUS_OK E \<Longrightarrow>
      ?tr = [Ev_boot None r0] \<and> free_calls ?tr = [] \<and> malloc_calls ?tr = [] \<and>
      boot_state (snd (bsp_dut_boot n E cal_boot s)) = boot_state s \<and>
      world (snd (bsp_dut_boot n E cal_boot s)) = w0"
  proof -
    assume a: "r0 \<noteq> CS40L25_STATUS_OK E"
    then have "?tr = [Ev_boot None r0]" unfolding C by simp
    moreover from a have "boot_state (snd (bsp_dut_boot n E cal_boot s)) = boot_state s \<and>
        world (snd (bsp_dut_boot n E cal_boot s)) = w0"
      unfolding U by simp
    ultimately show ?thesis by simp
  qed
  define rest where "rest =
    (if rh \<noteq> 0 then []
     else if p1 = 0 then [Ev_malloc sz1 p1]
     else if p2 = 0 then [Ev_malloc sz1 p1, Ev_malloc sz2 p2]
     else if p3 = 0 then [Ev_malloc sz1 p1, Ev_malloc sz2 p2, Ev_malloc sz3 p3]
     else [Ev_malloc sz1 p1, Ev_malloc sz2 p2, Ev_malloc sz3 p3] @ ?lp)"
  have B1: "r0 = CS40L25_STATUS_OK E \<Longrightarrow>
      ?tr = Ev_boot None (CS40L25_STATUS_OK E) # map Ev_free (held_buffers (boot_state s)) @
            Ev_memset # Ev_read_header (first_chunk fw_img) rh bsh # rest"
    unfolding C rest_def by (simp add: pre_def)
  have B2: "free_calls rest = [] \<and> Ev_memset \<notin> set rest"
    unfolding rest_def using boot_loop_no_alloc [of sL n E fw_img_end fw_img 1024] by simp
  have B3: "filter (\<lambda>p. p \<noteq> 0) (map snd (malloc_calls rest)) =
              held_buffers (boot_state (snd (bsp_dut_boot n E cal_boot s)))"
    if k: "keeps_buffers E" and ok: "r0 = CS40L25_STATUS_OK E"
  proof -
    from k have "held_buffers (snd (fst (fw_img_read_header E (first_chunk fw_img)
        (fold (bsp_free E) (held_buffers (boot_state s)) w0)))) =
        held_buffers (first_chunk fw_img :: 'p fw_img_boot_state_t)"
      by (simp add: keeps_buffers_def)
    with hd have "held_buffers bsh = []"
      by (simp add: first_chunk_def zeroed_boot_state_def held_buffers_def)
    then have z: "sym_table (fw_info bsh) = 0" "alg_id_list (fw_info bsh) = 0" "block_data bsh = 0"
      by (simp_all add: held_buffers_empty)
    have lpm: "malloc_calls ?lp = []"
      using boot_loop_no_alloc [of sL n E fw_img_end fw_img 1024] by simp
    have lph: "held_buffers (boot_state (snd (boot_loop n E fw_img_end fw_img 1024 sL))) =
        held_buffers (boot_state sL)"
      by (rule boot_loop_keeps_buffers [OF k])
    from z have h0: "held_buffers bsh = []"
      and h1: "\<And>q. held_buffers (with_sym_table q bsh) = filter (\<lambda>p. p \<noteq> 0) [q]"
      and h2: "\<And>q1 q2. held_buffers (with_buffers q1 q2 bsh) = filter (\<lambda>p. p \<noteq> 0) [q1, q2]"
      and h3: "\<And>q1 q2 q3.
                 held_buffers ((with_buffers q1 q2 bsh)\<lparr>block_data_size := sz3, block_data := q3\<rparr>) =
                 filter (\<lambda>p. p \<noteq> 0) [q1, q2, q3]"
      by (simp_all add: held_buffers_def with_sym_table_def with_buffers_def)
    from h3 have hL: "held_buffers (boot_state sL) = filter (\<lambda>p. p \<noteq> 0) [p1, p2, p3]"
      by (simp add: sL_def)
    from ok show ?thesis
      unfolding rest_def U
      by (simp add: lpm lph h0 h1 h2 h3 hL)
  qed
  have B4: "replay E wh rest = Some (world (snd (bsp_dut_boot n E cal_boot s)))"
    if ok: "r0 = CS40L25_STATUS_OK E"
  proof -
    have "replay E (world s)
            (Ev_boot None (CS40L25_STATUS_OK E) # map Ev_free (held_buffers (boot_state s)) @
             Ev_memset # Ev_read_header (first_chunk fw_img) rh bsh # rest) =
          Some (world (snd (bsp_dut_boot n E cal_boot s)))"
      using bsp_dut_boot_replay [of E s n cal_boot] unfolding B1 [OF ok] .
    with ok show ?thesis
      by (simp add: replay_append replay_map_free b0 hd)
  qed
  from A B1 B2 B3 B4 hd show ?thesis
    unfolding fw_img_def [symmetric] by (simp add: b0)
qed

theorem bsp_dut_boot_buffers_demo:
  "keeps_buffers demo_env_device \<and>
   fst (cs40l25_boot demo_env_device None (world demo_booted)) = CS40L25_STATUS_OK demo_env_device \<and>
   fst (cs40l25_boot demo_env_boot_fail None (world demo_booted)) \<noteq>
     CS40L25_STATUS_OK demo_env_boot_fail \<and>
   free_calls (new_calls demo_booted (snd (bsp_dut_boot (Suc 0) demo_env_boot_fail True demo_booted))) = [] \<and>
   boot_state (snd (bsp_dut_boot (Suc 0) demo_env_boot_fail True demo_booted)) = boot_state demo_booted \<and>
   world (snd (bsp_dut_boot (Suc 0) demo_env_boot_fail True demo_booted)) = 3 \<and>
   world (snd (bsp_dut_boot (Suc (Suc 0)) demo_env_device True demo_booted)) = 3104 \<and>
   (\<exists>rh bsh wh rest.
      new_calls demo_booted (snd (bsp_dut_boot (Suc (Suc 0)) demo_env_device True demo_booted)) =
        Ev_boot None 0 # map Ev_free [0x410, 0x404, 0x420] @ Ev_memset #
        Ev_read_header (first_chunk 0x8000) rh bsh # rest \<and>
      fw_img_read_header demo_env_device (first_chunk 0x8000) 3003 = ((rh, bsh), wh) \<and>
      replay demo_env_device wh rest = Some 3104 \<and>
      free_calls rest = [] \<and>
      filter (\<lambda>p. p \<noteq> 0) (map snd (malloc_calls rest)) =
        held_buffers (boot_state (snd (bsp_dut_boot (Suc (Suc 0)) demo_env_device True demo_booted))))"
proof -
  have k: "keeps_buffers demo_env_device"
    by (simp add: keeps_buffers_def held_buffers_def demo_defs)
  have h1: "fst (cs40l25_boot demo_env_device None (world demo_booted)) =
      CS40L25_STATUS_OK demo_env_device"
    by (simp add: demo_defs)
  have h2: "fst (cs40l25_boot demo_env_boot_fail None (world demo_booted)) \<noteq>
     CS40L25_STATUS_OK demo_env_boot_fail"
    by (simp add: demo_defs)
  have h3: "held_buffers (boot_state demo_booted) = [0x410, 0x404, 0x420]"
    by (simp add: held_buffers_def demo_defs)
  have h4: "CS40L25_STATUS_OK demo_env_device = 0" "cs40l25_cal_fw_img demo_env_device = 0x8000"
    by (simp_all add: demo_defs)
  have h5: "fold (bsp_free demo_env_device) [0x410, 0x404, 0x420]
              (snd (cs40l25_boot demo_env_device None (world demo_booted))) = 3003"
    by (simp add: demo_defs)
  have h6: "snd (cs40l25_boot demo_env_boot_fail None (world demo_booted)) = 3"
    by (simp add: demo_defs)
  have h7: "world (snd (bsp_dut_boot (Suc (Suc 0)) demo_env_device True demo_booted)) = 3104"
    by (simp add: run_defs demo_defs)
  from bsp_dut_boot_buffers [of demo_env_boot_fail demo_booted "Suc 0" True] h2
  have a: "free_calls (new_calls demo_booted (snd (bsp_dut_boot (Suc 0) demo_env_boot_fail True demo_booted))) = [] \<and>
   boot_state (snd (bsp_dut_boot (Suc 0) demo_env_boot_fail True demo_booted)) = boot_state demo_booted \<and>
   world (snd (bsp_dut_boot (Suc 0) demo_env_boot_fail True demo_booted)) = 3"
    unfolding h6 by blast
  from bsp_dut_boot_buffers [of demo_env_device demo_booted "Suc (Suc 0)" True] h1 k
  have b: "\<exists>rh bsh wh rest.
      new_calls demo_booted (snd (bsp_dut_boot (Suc (Suc 0)) demo_env_device True demo_booted)) =
        Ev_boot None 0 # map Ev_free [0x410, 0x404, 0x420] @ Ev_memset #
        Ev_read_header (first_chunk 0x8000) rh bsh # rest \<and>
      fw_img_read_header demo_env_device (first_chunk 0x8000) 3003 = ((rh, bsh), wh) \<and>
      replay demo_env_device wh rest = Some 3104 \<and>
      free_calls rest = [] \<and>
      filter (\<lambda>p. p \<noteq> 0) (map snd (malloc_calls rest)) =
        held_buffers (boot_state (snd (bsp_dut_boot (Suc (Suc 0)) demo_env_device True demo_booted)))"
    unfolding h3 h4 h5 h7 by auto
  from k h1 h2 a b h7 show ?thesis by blast
qed

subsection \<open>A parser that wants more input at the end of the image\<close>

text \<open>
  Claim C1, as stated, does not hold.  On the concrete platform, booting the calibration
  image (1024 bytes, a single chunk) from the booted state, the only parser step reports
  \<^verbatim>\<open>FW_IMG_STATUS_NODATA\<close> with no image bytes left, and \<^verbatim>\<open>bsp_dut_boot\<close> nevertheless
  calls \<^verbatim>\<open>cs40l25_boot\<close> with the firmware descriptor and returns \<^verbatim>\<open>BSP_STATUS_OK\<close>.
\<close>

theorem bsp_dut_boot_nodata_at_end_commits:
  "cs40l25_cal_fw_img_size demo_env = 1024 \<and>
   process_results (new_calls demo_booted
      (snd (bsp_dut_boot (Suc (Suc 0)) demo_env True demo_booted))) =
     [FW_IMG_STATUS_NODATA demo_env] \<and>
   commit_results (new_calls demo_booted
      (snd (bsp_dut_boot (Suc (Suc 0)) demo_env True demo_booted))) =
     [CS40L25_STATUS_OK demo_env] \<and>
   fst (bsp_dut_boot (Suc (Suc 0)) demo_env True demo_booted) = Some BSP_STATUS_OK"
  by (simp add: run_defs demo_defs BSP_STATUS_OK_def)

text \<open>
  Claim C1, amended.  When the loop condition holds, the parser reports
  \<^verbatim>\<open>FW_IMG_STATUS_NODATA\<close> and no image bytes remain after advancing by the chunk just
  processed, \<^verbatim>\<open>bsp_dut_boot\<close> does not signal a truncation: the loop ends, the next and last
  call is \<^verbatim>\<open>cs40l25_boot\<close> with the firmware descriptor the parser left, and the status
  of that call is the status returned.
\<close>

theorem boot_loop_nodata_at_end:
  assumes c: "fw_img < fw_img_end"
      and l: "\<not> fw_img + write_size < fw_img_end"
      and p: "fw_img_process E (boot_state s) (world s) = ((FW_IMG_STATUS_NODATA E, bo), w1)"
      and d1: "FW_IMG_STATUS_NODATA E \<noteq> FW_IMG_STATUS_DATA_READY E"
      and d2: "FW_IMG_STATUS_NODATA E \<noteq> FW_IMG_STATUS_FAIL E"
  shows "fst (boot_loop (Suc (Suc n)) E fw_img_end fw_img write_size s) =
           Some (fst (cs40l25_boot E (Some (fw_info bo)) w1)) \<and>
         new_calls s (snd (boot_loop (Suc (Suc n)) E fw_img_end fw_img write_size s)) =
           [Ev_process (boot_state s) (FW_IMG_STATUS_NODATA E) bo,
            Ev_boot (Some (fw_info bo)) (fst (cs40l25_boot E (Some (fw_info bo)) w1))]"
proof -
  obtain wr w2 where wr: "cs40l25_write_block E (block_addr (block bo)) (block_data bo)
                 (block_size (block bo)) w1 = (wr, w2)"
    by (metis prod.exhaust)
  note B = boot_loop_body_unfold [OF p wr refl]
  from c l d1 d2 show ?thesis
    unfolding boot_loop.simps B
    by (simp add: call_cs40l25_boot_def log_call_def new_calls_def split: prod.splits)
qed

theorem boot_loop_nodata_at_end_demo:
  "(0x8000 :: ptr) < 0x8400 \<and> \<not> (0x8000 + 1024 :: ptr) < 0x8400 \<and>
   fst (fst (fw_img_process demo_env
      (boot_state (snd (bsp_dut_boot 0 demo_env True demo_booted)))
      (world (snd (bsp_dut_boot 0 demo_env True demo_booted))))) = FW_IMG_STATUS_NODATA demo_env \<and>
   FW_IMG_STATUS_NODATA demo_env \<noteq> FW_IMG_STATUS_DATA_READY demo_env \<and>
   FW_IMG_STATUS_NODATA demo_env \<noteq> FW_IMG_STATUS_FAIL demo_env \<and>
   fst (boot_loop (Suc (Suc 0)) demo_env 0x8400 0x8000 1024
          (snd (bsp_dut_boot 0 demo_env True demo_booted))) = Some 0 \<and>
   commit_results (new_calls (snd (bsp_dut_boot 0 demo_env True demo_booted))
      (snd (boot_loop (Suc (Suc 0)) demo_env 0x8400 0x8000 1024
          (snd (bsp_dut_boot 0 demo_env True demo_booted))))) = [0]"
proof -
  let ?s = "snd (bsp_dut_boot 0 demo_env True demo_booted)"
  have c: "(0x8000 :: ptr) < 0x8400" and l: "\<not> (0x8000 + 1024 :: ptr) < 0x8400" by simp_all
  have p: "fw_img_process demo_env (boot_state ?s) (world ?s) =
      ((FW_IMG_STATUS_NODATA demo_env,
        (boot_state ?s)\<lparr>block := \<lparr>block_addr = 0x2000, block_size = 8\<rparr>\<rparr>), 4)"
    by (simp add: run_defs demo_defs)
  have h: "fst (fst (fw_img_process demo_env (boot_state ?s) (world ?s))) =
      FW_IMG_STATUS_NODATA demo_env"
    by (simp add: p)
  have d1: "FW_IMG_STATUS_NODATA demo_env \<noteq> FW_IMG_STATUS_DATA_READY demo_env"
    and d2: "FW_IMG_STATUS_NODATA demo_env \<noteq> FW_IMG_STATUS_FAIL demo_env"
    by (simp_all add: demo_defs)
  have b: "fst (cs40l25_boot demo_env (Some fi) w) = 0" for fi w
    by (simp add: demo_defs)
  note T = boot_loop_nodata_at_end [OF c l p d1 d2, of 0, unfolded b]
  from T have t1: "fst (boot_loop (Suc (Suc 0)) demo_env 0x8400 0x8000 1024 ?s) = Some 0"
    by (rule conjunct1)
  from T have "commit_results (new_calls ?s
      (snd (boot_loop (Suc (Suc 0)) demo_env 0x8400 0x8000 1024 ?s))) =
    commit_results [Ev_process (boot_state ?s) (FW_IMG_STATUS_NODATA demo_env)
         ((boot_state ?s)\<lparr>block := \<lparr>block_addr = 0x2000, block_size = 8\<rparr>\<rparr>),
       Ev_boot (Some (fw_info ((boot_state ?s)\<lparr>block := \<lparr>block_addr = 0x2000, block_size = 8\<rparr>\<rparr>))) 0]"
    by (simp only: conjunct2 [OF T])
  then have t2: "commit_results (new_calls ?s
      (snd (boot_loop (Suc (Suc 0)) demo_env 0x8400 0x8000 1024 ?s))) = [0]"
    by (simp del: boot_loop.simps)
  from c l h d1 d2 t1 t2 show ?thesis by blast
qed

subsection \<open>The index of the haptic configuration\<close>

lemma bsp_dut_update_haptic_config_guard:
  "2 < unat config_index \<Longrightarrow> bsp_dut_update_haptic_config E config_index w = (Inr BSP_STATUS_FAIL, w)"
  by (simp add: bsp_dut_update_haptic_config_def cs40l25_haptic_configs_def)

lemma bsp_dut_update_haptic_config_in_bounds:
  "unat config_index < 2 \<Longrightarrow>
   bsp_dut_update_haptic_config E config_index w =
     (case cs40l25_update_haptic_config E (cs40l25_haptic_configs ! unat config_index) w of
        (ret, w') \<Rightarrow> (Inr (if ret = CS40L25_STATUS_OK E then BSP_STATUS_OK else BSP_STATUS_FAIL), w'))"
  by (simp add: bsp_dut_update_haptic_config_def cs40l25_haptic_configs_def split: prod.splits)

text \<open>
  Claim C10 fails at \<open>config_index = 2\<close>.  The guard compares with \<^verbatim>\<open>>\<close> against the
  number of elements, so the index 2 passes it, and the driver is handed the address one
  past the end of the two-element array.  Every larger index is rejected and the indices
  0 and 1 are served, as the two lemmas above say.
\<close>

theorem bsp_dut_update_haptic_config_index_2:
  "fst (bsp_dut_update_haptic_config E 2 w) = Inl (Read_outside_array 2)"
  by (simp add: bsp_dut_update_haptic_config_def cs40l25_haptic_configs_def)

end
